theory Spec2Isabelle
  imports Complex_Main "HOL-Library.AList" "HOL-Library.Log_Nat"
begin

section \<open>The captcha training module (src/models/captcha_module.py)\<close>

text \<open>
  The module is a set of lifecycle callbacks over a mutable object. The object is a record,
  every callback takes the record and returns the updated one, and a callback that can raise
  returns a sum whose left side is the exception.

  Loss values, weights and the accuracy the visualizer returns are Python floats or
  zero-dimensional tensors in the source; here they are real numbers, and the weighted sum
  of the losses is a sum of real numbers. The accuracy at the end of the test epoch is
  computed by the module itself from two integers, and there the two roundings of double
  arithmetic are modelled. Tensors (images, encoded labels, predictions) are opaque
  values of a type \<open>'t\<close>; optimizer parameters, optimizers, schedulers, devices and figures
  are opaque values of the types \<open>'w\<close>, \<open>'o\<close>, \<open>'s\<close>, \<open>'d\<close> and \<open>'f\<close>.
\<close>

subsection \<open>Python dictionaries and exceptions\<close>

datatype py_error = KeyError | ZeroDivisionError

text \<open>
  A \<open>dict\<close> keeps its keys in insertion order, and assigning to a key that is present
  replaces the value where the key stands. This is \<open>AList.update\<close> on an association list.
\<close>

type_synonym ('k, 'v) dict = "('k \<times> 'v) list"

definition dict_setitem :: "('k, 'v) dict \<Rightarrow> 'k \<Rightarrow> 'v \<Rightarrow> ('k, 'v) dict" where
  "dict_setitem d k v = AList.update k v d"

text \<open>\<open>d[k]\<close> raises \<open>KeyError\<close> on a missing key; \<open>d.get(k)\<close> returns \<open>None\<close> there.\<close>

definition dict_getitem :: "('k, 'v) dict \<Rightarrow> 'k \<Rightarrow> py_error + 'v" where
  "dict_getitem d k = (case map_of d k of None \<Rightarrow> Inl KeyError | Some v \<Rightarrow> Inr v)"

definition dict_get :: "('k, 'v) dict \<Rightarrow> 'k \<Rightarrow> 'v option" where
  "dict_get d k = map_of d k"

subsection \<open>Python floats\<close>

text \<open>
  A Python float is an IEEE double. A finite double is \<open>m * 2^e\<close> for integers \<open>m\<close> and \<open>e\<close>
  with \<open>\<bar>m\<bar> \<le> 2^53\<close>; it is the pair \<open>(m, e)\<close> here, and \<open>double_val\<close> is its value. The
  exponent is not bounded: overflow and gradual underflow, which need counters beyond
  \<open>10^300\<close>, are left out.
\<close>

type_synonym double = "int \<times> int"

definition double_val :: "double \<Rightarrow> real" where
  "double_val x =
     (if 0 \<le> snd x then real_of_int (fst x) * 2 ^ nat (snd x)
      else real_of_int (fst x) / 2 ^ nat (- snd x))"

text \<open>The integer nearest to \<open>n / d\<close> for \<open>d > 0\<close>, a tie going to the even one.\<close>

definition round_half_even :: "int \<Rightarrow> int \<Rightarrow> int" where
  "round_half_even n d =
     (let q = n div d; r = n mod d
      in if 2 * r < d then q
         else if d < 2 * r then q + 1
         else if even q then q else q + 1)"

text \<open>
  The double nearest to the rational \<open>n / d\<close> for \<open>d > 0\<close> (round to nearest, ties to
  even): \<open>e\<close> is the exponent of the leading bit of \<open>\<bar>n / d\<bar>\<close>, found from the bit lengths
  of \<open>n\<close> and \<open>d\<close>, and the quotient is rounded to a multiple of \<open>2^(e - 52)\<close>, which leaves
  53 significant bits.
\<close>

definition round_to_double :: "int \<Rightarrow> int \<Rightarrow> double" where
  "round_to_double n d =
     (if n = 0 then (0, 0)
      else let k = bitlen \<bar>n\<bar> - bitlen d;
               e = (if d * 2 ^ nat k \<le> \<bar>n\<bar> * 2 ^ nat (- k) then k else k - 1);
               q = e - 52
           in (round_half_even (n * 2 ^ nat (- q)) (d * 2 ^ nat q), q))"

text \<open>
  \<open>a / b\<close> on two \<open>int\<close>s is true division: it raises \<open>ZeroDivisionError\<close> on a zero
  divisor and returns the double nearest to the quotient otherwise.
\<close>

definition int_truediv :: "int \<Rightarrow> int \<Rightarrow> py_error + double" where
  "int_truediv a b =
     (if b = 0 then Inl ZeroDivisionError
      else if b < 0 then Inr (round_to_double (- a) (- b))
      else Inr (round_to_double a b))"

text \<open>
  In \<open>x * 100\<close> with a float \<open>x\<close> the integer is converted to a float, and the product of
  the two doubles is rounded to the nearest double.
\<close>

definition float_of_int :: "int \<Rightarrow> double" where
  "float_of_int k = round_to_double k 1"

definition float_mul :: "double \<Rightarrow> double \<Rightarrow> double" where
  "float_mul x y =
     round_to_double (fst x * fst y * 2 ^ nat (snd x + snd y)) (2 ^ nat (- (snd x + snd y)))"

subsection \<open>Collaborators\<close>

text \<open>
  A loss function is a callable with a \<open>tag\<close> and a \<open>weight\<close> attribute; it is called with
  the keyword arguments \<open>prediction\<close>, \<open>images\<close> and \<open>labels_encoded\<close>, in this order here.
\<close>

record 't loss_fn =
  tag :: string
  weight :: real
  loss_call :: "'t \<Rightarrow> 't \<Rightarrow> 't \<Rightarrow> real"

text \<open>
  The network is a callable on tensors with a \<open>num_classes\<close> attribute. The network, the
  loss functions and the visualizer are taken to return on every input and to leave the
  module alone: they are functions.
\<close>

record 't network =
  net_call :: "'t \<Rightarrow> 't"
  net_num_classes :: int

text \<open>
  A metric object of the metrics library (\<open>MeanMetric\<close>, \<open>MaxMetric\<close>, \<open>Accuracy\<close>) is
  represented by the arguments it has been called with since its last reset: \<open>reset()\<close>
  empties the list and a call appends to it. The argument is an option because the module
  passes the result of \<open>dict.get\<close>.
\<close>

type_synonym metric = "real option list"

definition metric_reset :: "metric \<Rightarrow> metric" where
  "metric_reset m = []"

definition metric_call :: "metric \<Rightarrow> real option \<Rightarrow> metric" where
  "metric_call m v = m @ [v]"

text \<open>
  The outward effects of the module are calls: \<open>self.log\<close> (name, value, \<open>on_step\<close>,
  \<open>on_epoch\<close>, \<open>prog_bar\<close>; an omitted \<open>on_step\<close> or \<open>on_epoch\<close> is \<open>None\<close>), the two calls
  on \<open>self.logger.experiment\<close>, and the two methods of \<open>DataVisualizer\<close>. They are recorded,
  in order, in the \<open>trace\<close> field of the module. The logger is taken to be attached and to
  accept \<open>add_figure\<close> and \<open>add_scalar\<close>.
\<close>

datatype ('t, 'f) event =
    Log string real "bool option" "bool option" bool
  | AddFigure string 'f int
  | AddScalar string real int
  | VisualizePrediction 't 't
  | GetAccuracy 't 't

subsection \<open>The module object\<close>

text \<open>\<open>save_hyperparameters\<close> keeps the arguments of \<open>__init__\<close> under \<open>self.hparams\<close>.\<close>

record ('t, 'w, 'o, 's) hparams =
  hp_net :: "'t network"
  hp_optimizer :: "'w \<Rightarrow> 'o"
  hp_loss_fns :: "'t loss_fn list"
  hp_scheduler :: "('o \<Rightarrow> 's) option"
  hp_compile :: bool

text \<open>
  \<open>device\<close> and \<open>global_step\<close> are properties the framework maintains; the module only
  reads them.
\<close>

record ('t, 'w, 'o, 's, 'd, 'f) captcha_module =
  hparams :: "('t, 'w, 'o, 's) hparams"
  net :: "'t network"
  loss_fns :: "'t loss_fn list"
  num_classes :: int
  train_acc :: metric
  val_acc :: metric
  test_acc :: metric
  train_loss :: metric
  val_loss :: metric
  test_loss :: metric
  val_acc_best :: metric
  correct_count :: int
  total_count :: int
  device :: 'd
  global_step :: int
  trace :: "('t, 'f) event list"

text \<open>
  \<open>__init__\<close>. The device and the step counter of a fresh module are the framework's; they
  are parameters. No call has been made yet, so the trace is empty.
\<close>

definition init ::
  "'t network \<Rightarrow> ('w \<Rightarrow> 'o) \<Rightarrow> 't loss_fn list \<Rightarrow> ('o \<Rightarrow> 's) option \<Rightarrow> bool \<Rightarrow> 'd \<Rightarrow> int
    \<Rightarrow> ('t, 'w, 'o, 's, 'd, 'f) captcha_module" where
  "init net0 optimizer0 loss_fns0 scheduler0 compile0 dev step =
     \<lparr> hparams = \<lparr> hp_net = net0, hp_optimizer = optimizer0, hp_loss_fns = loss_fns0,
                   hp_scheduler = scheduler0, hp_compile = compile0 \<rparr>,
       net = net0,
       loss_fns = loss_fns0,
       num_classes = net_num_classes net0 + 1,
       train_acc = [], val_acc = [], test_acc = [],
       train_loss = [], val_loss = [], test_loss = [],
       val_acc_best = [],
       correct_count = 0,
       total_count = 0,
       device = dev,
       global_step = step,
       trace = [] \<rparr>"

definition forward :: "('t, 'w, 'o, 's, 'd, 'f) captcha_module \<Rightarrow> 't \<Rightarrow> 't" where
  "forward s x = net_call (net s) x"

definition on_train_start ::
  "('t, 'w, 'o, 's, 'd, 'f) captcha_module \<Rightarrow> ('t, 'w, 'o, 's, 'd, 'f) captcha_module" where
  "on_train_start s =
     s\<lparr> val_loss := metric_reset (val_loss s),
        val_acc := metric_reset (val_acc s),
        val_acc_best := metric_reset (val_acc_best s) \<rparr>"

subsection \<open>The loss aggregator\<close>

text \<open>
  The body of the \<open>for\<close> loop of \<open>model_step\<close>: store the value of the loss function under
  its tag, then read \<open>losses["total_loss"]\<close> and \<open>losses[loss_fn.tag]\<close> back from the
  dictionary and store their combination under \<open>"total_loss"\<close>.
\<close>

fun loss_loop ::
  "'t loss_fn list \<Rightarrow> 't \<Rightarrow> 't \<Rightarrow> 't \<Rightarrow> (string, real) dict \<Rightarrow> py_error + (string, real) dict" where
  "loss_loop [] prediction images labels_encoded losses = Inr losses"
| "loss_loop (f # fs) prediction images labels_encoded losses =
     (let losses1 = dict_setitem losses (tag f) (loss_call f prediction images labels_encoded)
      in case dict_getitem losses1 ''total_loss'' of
           Inl e \<Rightarrow> Inl e
         | Inr running \<Rightarrow>
             (case dict_getitem losses1 (tag f) of
                Inl e \<Rightarrow> Inl e
              | Inr v \<Rightarrow>
                  loss_loop fs prediction images labels_encoded
                    (dict_setitem losses1 ''total_loss'' (running + v * weight f))))"

definition model_step ::
  "('t, 'w, 'o, 's, 'd, 'f) captcha_module \<Rightarrow> 't \<times> 't
    \<Rightarrow> py_error + ((string, real) dict \<times> 't \<times> 't \<times> 't)" where
  "model_step s batch =
     (case batch of (images, labels_encoded) \<Rightarrow>
        (let prediction = forward s images;
             losses = dict_setitem [] ''total_loss'' 0
         in (case loss_loop (loss_fns s) prediction images labels_encoded losses of
               Inl e \<Rightarrow> Inl e
             | Inr losses' \<Rightarrow> Inr (losses', prediction, images, labels_encoded))))"

subsection \<open>Step handlers\<close>

definition log_call ::
  "string \<Rightarrow> real \<Rightarrow> bool option \<Rightarrow> bool option \<Rightarrow> bool
    \<Rightarrow> ('t, 'w, 'o, 's, 'd, 'f) captcha_module \<Rightarrow> ('t, 'w, 'o, 's, 'd, 'f) captcha_module" where
  "log_call name v on_step on_epoch prog_bar s =
     s\<lparr> trace := trace s @ [Log name v on_step on_epoch prog_bar] \<rparr>"

text \<open>
  The loop \<open>for loss_name, loss_value in losses.items(): self.log(f"<stage>/{loss_name}", ...)\<close>
  that every step handler runs, with the stage prefix as a parameter.
\<close>

fun log_losses ::
  "string \<Rightarrow> (string, real) dict
    \<Rightarrow> ('t, 'w, 'o, 's, 'd, 'f) captcha_module \<Rightarrow> ('t, 'w, 'o, 's, 'd, 'f) captcha_module" where
  "log_losses prefix [] s = s"
| "log_losses prefix ((loss_name, loss_value) # items) s =
     log_losses prefix items
       (log_call (prefix @ loss_name) loss_value (Some False) (Some True) True s)"

definition training_step ::
  "('t, 'w, 'o, 's, 'd, 'f) captcha_module \<Rightarrow> 't \<times> 't \<Rightarrow> int
    \<Rightarrow> py_error + (real option \<times> ('t, 'w, 'o, 's, 'd, 'f) captcha_module)" where
  "training_step s batch batch_idx =
     (case model_step s batch of
        Inl e \<Rightarrow> Inl e
      | Inr (losses, prediction, images, labels_encoded) \<Rightarrow>
          let s1 = s\<lparr> train_loss := metric_call (train_loss s) (dict_get losses ''total_loss'') \<rparr>;
              s2 = log_losses ''train/'' losses s1
          in Inr (dict_get losses ''total_loss'', s2))"

definition on_train_epoch_end ::
  "('t, 'w, 'o, 's, 'd, 'f) captcha_module \<Rightarrow> ('t, 'w, 'o, 's, 'd, 'f) captcha_module" where
  "on_train_epoch_end s = s"

text \<open>
  \<open>DataVisualizer\<close> lives in another file of the repository; its two methods are
  parameters of the handlers that call them. The object is built from \<open>self.net\<close> and
  \<open>self.device\<close> at every call, so the methods take these two first.
\<close>

definition validation_step ::
  "('t network \<Rightarrow> 'd \<Rightarrow> 't \<Rightarrow> 't \<Rightarrow> 'f \<times> real)
    \<Rightarrow> ('t, 'w, 'o, 's, 'd, 'f) captcha_module \<Rightarrow> 't \<times> 't \<Rightarrow> int
    \<Rightarrow> py_error + ('t, 'w, 'o, 's, 'd, 'f) captcha_module" where
  "validation_step visualize_prediction s batch batch_idx =
     (case model_step s batch of
        Inl e \<Rightarrow> Inl e
      | Inr (losses, prediction, images, labels_encoded) \<Rightarrow>
          let s1 = s\<lparr> val_loss := metric_call (val_loss s) (dict_get losses ''total_loss'') \<rparr>;
              s2 = log_losses ''val/'' losses s1
          in if batch_idx mod 100 = 0 then
               (case visualize_prediction (net s2) (device s2) images labels_encoded of
                  (fig, accuracy) \<Rightarrow>
                    let s3 = s2\<lparr> trace := trace s2 @ [VisualizePrediction images labels_encoded] \<rparr>;
                        s4 = s3\<lparr> trace := trace s3 @ [AddFigure ''Predicted_Images'' fig (global_step s3)] \<rparr>;
                        s5 = s4\<lparr> trace := trace s4 @ [AddScalar ''Accuracy'' accuracy (global_step s4)] \<rparr>
                    in Inr (log_call ''val/Accuracy'' accuracy (Some False) (Some True) True s5))
             else Inr s2)"

definition on_validation_epoch_end ::
  "('t, 'w, 'o, 's, 'd, 'f) captcha_module \<Rightarrow> ('t, 'w, 'o, 's, 'd, 'f) captcha_module" where
  "on_validation_epoch_end s = s"

definition test_step ::
  "('t network \<Rightarrow> 'd \<Rightarrow> 't \<Rightarrow> 't \<Rightarrow> int \<times> int)
    \<Rightarrow> ('t, 'w, 'o, 's, 'd, 'f) captcha_module \<Rightarrow> 't \<times> 't \<Rightarrow> int
    \<Rightarrow> py_error + ('t, 'w, 'o, 's, 'd, 'f) captcha_module" where
  "test_step get_accuracy s batch batch_idx =
     (case model_step s batch of
        Inl e \<Rightarrow> Inl e
      | Inr (losses, prediction, images, labels_encoded) \<Rightarrow>
          (case get_accuracy (net s) (device s) images labels_encoded of
             (correct_n, total_n) \<Rightarrow>
               let s1 = s\<lparr> trace := trace s @ [GetAccuracy images labels_encoded],
                           correct_count := correct_n,
                           total_count := total_n \<rparr>;
                   s2 = s1\<lparr> test_loss := metric_call (test_loss s1) (dict_get losses ''total_loss'') \<rparr>
               in Inr (log_losses ''test/'' losses s2)))"

text \<open>
  \<open>self.correct_count / self.total_count * 100\<close>: the true division of the two counters,
  then the product of the quotient with 100, each rounded to a double.
\<close>

definition on_test_epoch_end ::
  "('t, 'w, 'o, 's, 'd, 'f) captcha_module \<Rightarrow> py_error + ('t, 'w, 'o, 's, 'd, 'f) captcha_module" where
  "on_test_epoch_end s =
     (case int_truediv (correct_count s) (total_count s) of
        Inl e \<Rightarrow> Inl e
      | Inr ratio \<Rightarrow>
          let accuracy = float_mul ratio (float_of_int 100)
          in Inr (log_call ''Test Dataset Accuracy'' (double_val accuracy) None None False s))"

subsection \<open>Setup and optimizer configuration\<close>

text \<open>
  The \<open>setup\<close> hook (\<open>setup\<close> is a keyword of the theory language, hence the name).
  \<open>torch.compile\<close> is a parameter.
\<close>

definition setup_hook ::
  "('t network \<Rightarrow> 't network) \<Rightarrow> ('t, 'w, 'o, 's, 'd, 'f) captcha_module \<Rightarrow> string
    \<Rightarrow> ('t, 'w, 'o, 's, 'd, 'f) captcha_module" where
  "setup_hook torch_compile s stage =
     (if hp_compile (hparams s) \<and> stage = ''fit'' then s\<lparr> net := torch_compile (net s) \<rparr> else s)"

text \<open>
  The dictionary \<open>configure_optimizers\<close> returns holds an optimizer, or a nested dictionary
  of a scheduler, two strings and an integer.
\<close>

datatype ('o, 's) cfg_value =
    Optimizer 'o
  | Scheduler 's
  | Str string
  | Num int
  | Dict "(string \<times> ('o, 's) cfg_value) list"

text \<open>\<open>self.parameters()\<close> is the framework's; its result is the parameter \<open>params\<close>.\<close>

definition configure_optimizers ::
  "'w \<Rightarrow> ('t, 'w, 'o, 's, 'd, 'f) captcha_module \<Rightarrow> (string, ('o, 's) cfg_value) dict" where
  "configure_optimizers params s =
     (let optimizer = hp_optimizer (hparams s) params
      in case hp_scheduler (hparams s) of
           Some scheduler_factory \<Rightarrow>
             let scheduler = scheduler_factory optimizer
             in [(''optimizer'', Optimizer optimizer),
                 (''lr_scheduler'',
                    Dict [(''scheduler'', Scheduler scheduler),
                          (''monitor'', Str ''val/total_loss''),
                          (''interval'', Str ''epoch''),
                          (''frequency'', Num 1)])]
         | None \<Rightarrow> [(''optimizer'', Optimizer optimizer)])"

subsection \<open>The framework's test loop\<close>

text \<open>
  During a test epoch the framework calls \<open>test_step\<close> once for every batch of the test
  data, in order, on the same module object; an exception ends the run.
\<close>

fun test_steps ::
  "('t network \<Rightarrow> 'd \<Rightarrow> 't \<Rightarrow> 't \<Rightarrow> int \<times> int)
    \<Rightarrow> ('t, 'w, 'o, 's, 'd, 'f) captcha_module \<Rightarrow> (('t \<times> 't) \<times> int) list
    \<Rightarrow> py_error + ('t, 'w, 'o, 's, 'd, 'f) captcha_module" where
  "test_steps get_accuracy s [] = Inr s"
| "test_steps get_accuracy s ((batch, batch_idx) # rest) =
     (case test_step get_accuracy s batch batch_idx of
        Inl e \<Rightarrow> Inl e
      | Inr s' \<Rightarrow> test_steps get_accuracy s' rest)"

subsection \<open>Concrete modules\<close>

text \<open>
  A module over natural numbers as tensors, with the identity as network, built by
  \<open>__init__\<close> from a list of loss functions, a scheduler factory and the compile flag. The
  optimizer factory returns its parameters, the device is 0 and the step counter is 7.
\<close>

definition example_net :: "nat network" where
  "example_net = \<lparr> net_call = (\<lambda>x. x), net_num_classes = 10 \<rparr>"

definition example_module ::
  "nat loss_fn list \<Rightarrow> (nat \<Rightarrow> nat) option \<Rightarrow> bool \<Rightarrow> (nat, nat, nat, nat, nat, nat) captcha_module" where
  "example_module fns sched flag = init example_net (\<lambda>w. w) fns sched flag 0 7"

section \<open>Properties\<close>

subsection \<open>Dictionary reads after writes\<close>

lemma dict_getitem_setitem_same: "dict_getitem (dict_setitem d k v) k = Inr v"
  by (simp add: dict_getitem_def dict_setitem_def AList.update_conv')

lemma dict_getitem_setitem_other:
  "k' \<noteq> k \<Longrightarrow> dict_getitem (dict_setitem d k v) k' = dict_getitem d k'"
  by (simp add: dict_getitem_def dict_setitem_def AList.update_conv')

lemma map_of_setitem: "map_of (dict_setitem d k v) = (map_of d)(k \<mapsto> v)"
  by (simp add: dict_setitem_def AList.update_conv')

subsection \<open>The loop of the loss aggregator\<close>

text \<open>
  One iteration, when the tag is not the key of the running total: the value goes under
  the tag and the total grows by value times weight.
\<close>

lemma loss_loop_step:
  assumes "map_of losses ''total_loss'' = Some t" and "tag f \<noteq> ''total_loss''"
  shows "loss_loop (f # fs) p i l losses =
           loss_loop fs p i l
             (dict_setitem (dict_setitem losses (tag f) (loss_call f p i l)) ''total_loss''
                (t + loss_call f p i l * weight f))"
proof -
  have "dict_getitem (dict_setitem losses (tag f) (loss_call f p i l)) ''total_loss'' = Inr t"
    using assms by (simp add: dict_getitem_def map_of_setitem)
  then show ?thesis
    by (simp add: Let_def dict_getitem_setitem_same)
qed

text \<open>
  One iteration, when the tag is the key of the running total: the value replaces the
  total before the total is read back.
\<close>

lemma loss_loop_collide:
  assumes "tag f = ''total_loss''"
  shows "loss_loop (f # fs) p i l losses =
           loss_loop fs p i l
             (dict_setitem losses ''total_loss'' (loss_call f p i l + loss_call f p i l * weight f))"
  using assms
  by (simp add: Let_def dict_getitem_setitem_same) (simp add: dict_setitem_def)

text \<open>The two reads of the loop body never miss: the loop returns a dictionary.\<close>

lemma loss_loop_returns:
  "map_of losses ''total_loss'' \<noteq> None \<Longrightarrow>
     \<exists>d. loss_loop fs p i l losses = Inr d \<and> map_of d ''total_loss'' \<noteq> None"
proof (induction fs arbitrary: losses)
  case Nil
  then show ?case by simp
next
  case (Cons f fs)
  then obtain t where t: "map_of losses ''total_loss'' = Some t" by auto
  show ?case
  proof (cases "tag f = ''total_loss''")
    case True
    show ?thesis
      unfolding loss_loop_collide [OF True]
      by (rule Cons.IH) (simp add: map_of_setitem)
  next
    case False
    show ?thesis
      unfolding loss_loop_step [OF t False]
      by (rule Cons.IH) (simp add: map_of_setitem)
  qed
qed

lemma loss_loop_total:
  "''total_loss'' \<notin> tag ` set fs \<Longrightarrow> map_of losses ''total_loss'' = Some t \<Longrightarrow>
     loss_loop fs p i l losses = Inr d \<Longrightarrow>
     map_of d ''total_loss'' = Some (t + (\<Sum>f\<leftarrow>fs. weight f * loss_call f p i l))"
proof (induction fs arbitrary: losses t)
  case Nil
  then show ?case by simp
next
  case (Cons f fs)
  from Cons.prems(1) have nf: "tag f \<noteq> ''total_loss''" and nfs: "''total_loss'' \<notin> tag ` set fs"
    by auto
  let ?v = "loss_call f p i l"
  let ?losses' = "dict_setitem (dict_setitem losses (tag f) ?v) ''total_loss'' (t + ?v * weight f)"
  have run: "loss_loop fs p i l ?losses' = Inr d"
    using Cons.prems(3) loss_loop_step [OF Cons.prems(2) nf] by simp
  have "map_of ?losses' ''total_loss'' = Some (t + ?v * weight f)"
    by (simp add: map_of_setitem)
  from Cons.IH [OF nfs this run] show ?case
    by (simp add: algebra_simps)
qed

lemma loss_loop_entry:
  "''total_loss'' \<notin> tag ` set fs \<Longrightarrow> map_of losses ''total_loss'' = Some t \<Longrightarrow>
     loss_loop fs p i l losses = Inr d \<Longrightarrow> k \<noteq> ''total_loss'' \<Longrightarrow>
     map_of d k =
       (if k \<in> tag ` set fs then Some (loss_call (last (filter (\<lambda>f. tag f = k) fs)) p i l)
        else map_of losses k)"
proof (induction fs arbitrary: losses t)
  case Nil
  then show ?case by simp
next
  case (Cons f fs)
  from Cons.prems(1) have nf: "tag f \<noteq> ''total_loss''" and nfs: "''total_loss'' \<notin> tag ` set fs"
    by auto
  let ?v = "loss_call f p i l"
  let ?losses' = "dict_setitem (dict_setitem losses (tag f) ?v) ''total_loss'' (t + ?v * weight f)"
  have run: "loss_loop fs p i l ?losses' = Inr d"
    using Cons.prems(3) loss_loop_step [OF Cons.prems(2) nf] by simp
  have tot: "map_of ?losses' ''total_loss'' = Some (t + ?v * weight f)"
    by (simp add: map_of_setitem)
  have old: "map_of ?losses' k = (if tag f = k then Some ?v else map_of losses k)"
    using Cons.prems(4) by (simp add: map_of_setitem)
  have none: "k \<notin> tag ` set fs \<Longrightarrow> filter (\<lambda>f. tag f = k) fs = []"
    by (auto simp: filter_empty_conv)
  have some: "k \<in> tag ` set fs \<Longrightarrow> filter (\<lambda>f. tag f = k) fs \<noteq> []"
    by (auto simp: filter_empty_conv)
  from Cons.IH [OF nfs tot run Cons.prems(4)] old none some show ?case
    by auto
qed

lemma loss_loop_keys:
  "loss_loop fs p i l losses = Inr d \<Longrightarrow> ''total_loss'' \<in> fst ` set losses \<Longrightarrow>
     fst ` set d = fst ` set losses \<union> tag ` set fs"
proof (induction fs arbitrary: losses)
  case Nil
  then show ?case by simp
next
  case (Cons f fs)
  let ?v = "loss_call f p i l"
  let ?l1 = "dict_setitem losses (tag f) ?v"
  have "''total_loss'' \<in> fst ` set ?l1"
    using Cons.prems(2) by (simp add: dict_setitem_def AList.dom_update)
  then have "map_of ?l1 ''total_loss'' \<noteq> None"
    by (simp only: map_of_eq_None_iff not_not)
  then obtain t where t: "dict_getitem ?l1 ''total_loss'' = Inr t"
    by (auto simp: dict_getitem_def)
  let ?l2 = "dict_setitem ?l1 ''total_loss'' (t + ?v * weight f)"
  have run: "loss_loop fs p i l ?l2 = Inr d"
    using Cons.prems(1) t by (simp add: Let_def dict_getitem_setitem_same)
  have keys: "fst ` set ?l2 = fst ` set losses \<union> {tag f}"
    using Cons.prems(2) by (auto simp: dict_setitem_def AList.dom_update)
  then have "''total_loss'' \<in> fst ` set ?l2" using Cons.prems(2) by blast
  from Cons.IH [OF run this] keys show ?case by auto
qed

text \<open>Every key of the result stands once, as in a dictionary.\<close>

lemma loss_loop_distinct:
  "loss_loop fs p i l losses = Inr d \<Longrightarrow> distinct (map fst losses) \<Longrightarrow> distinct (map fst d)"
proof (induction fs arbitrary: losses)
  case Nil
  then show ?case by simp
next
  case (Cons f fs)
  let ?v = "loss_call f p i l"
  let ?l1 = "dict_setitem losses (tag f) ?v"
  from Cons.prems(1) obtain t where
    run: "loss_loop fs p i l (dict_setitem ?l1 ''total_loss'' (t + ?v * weight f)) = Inr d"
    by (auto simp: Let_def dict_getitem_setitem_same split: sum.splits)
  have "distinct (map fst (dict_setitem ?l1 ''total_loss'' (t + ?v * weight f)))"
    unfolding dict_setitem_def by (intro AList.distinct_update Cons.prems(2))
  from Cons.IH [OF run this] show ?case .
qed

subsection \<open>The handlers in closed form\<close>

lemma model_step_returns:
  "\<exists>losses. model_step s (images, labels) = Inr (losses, forward s images, images, labels) \<and>
     loss_loop (loss_fns s) (forward s images) images labels [(''total_loss'', 0)] = Inr losses"
proof -
  have "\<exists>d. loss_loop (loss_fns s) (forward s images) images labels [(''total_loss'', 0)] = Inr d \<and>
          map_of d ''total_loss'' \<noteq> None"
    by (rule loss_loop_returns) simp
  then obtain d where "loss_loop (loss_fns s) (forward s images) images labels [(''total_loss'', 0)] = Inr d"
    by blast
  then show ?thesis
    by (simp add: model_step_def dict_setitem_def)
qed

lemma model_step_shape:
  "model_step s (images, labels) = Inr (losses, p, i, l) \<Longrightarrow>
     p = forward s images \<and> i = images \<and> l = labels \<and>
     loss_loop (loss_fns s) (forward s images) images labels [(''total_loss'', 0)] = Inr losses"
  by (auto simp: model_step_def dict_setitem_def Let_def split: sum.splits)

lemma log_losses_eq:
  "log_losses prefix d s =
     s\<lparr> trace := trace s @ map (\<lambda>(n, v). Log (prefix @ n) v (Some False) (Some True) True) d \<rparr>"
  by (induction d arbitrary: s) (auto simp: log_call_def)

lemma training_step_eq:
  assumes "model_step s batch = Inr (losses, p, i, l)"
  shows "training_step s batch idx =
     Inr (dict_get losses ''total_loss'',
          s\<lparr> train_loss := train_loss s @ [dict_get losses ''total_loss''],
             trace := trace s @ map (\<lambda>(n, v). Log (''train/'' @ n) v (Some False) (Some True) True) losses \<rparr>)"
  using assms by (simp add: training_step_def log_losses_eq metric_call_def)

lemma validation_step_eq:
  assumes "model_step s batch = Inr (losses, p, i, l)"
  shows "validation_step vp s batch idx =
     Inr (s\<lparr> val_loss := val_loss s @ [dict_get losses ''total_loss''],
             trace := trace s @ map (\<lambda>(n, v). Log (''val/'' @ n) v (Some False) (Some True) True) losses @
               (if idx mod 100 = 0
                then [VisualizePrediction i l,
                      AddFigure ''Predicted_Images'' (fst (vp (net s) (device s) i l)) (global_step s),
                      AddScalar ''Accuracy'' (snd (vp (net s) (device s) i l)) (global_step s),
                      Log ''val/Accuracy'' (snd (vp (net s) (device s) i l)) (Some False) (Some True) True]
                else []) \<rparr>)"
  using assms
  by (simp add: validation_step_def log_losses_eq metric_call_def log_call_def Let_def
      split: prod.splits)

lemma test_step_eq:
  assumes "model_step s batch = Inr (losses, p, i, l)"
  shows "test_step ga s batch idx =
     Inr (s\<lparr> correct_count := fst (ga (net s) (device s) i l),
             total_count := snd (ga (net s) (device s) i l),
             test_loss := test_loss s @ [dict_get losses ''total_loss''],
             trace := trace s @ GetAccuracy i l #
               map (\<lambda>(n, v). Log (''test/'' @ n) v (Some False) (Some True) True) losses \<rparr>)"
  using assms
  by (simp add: test_step_def log_losses_eq metric_call_def Let_def split: prod.splits)

subsection \<open>The loss aggregator (C1, C10)\<close>

text \<open>
  C1, as amended. When no loss function is tagged \<open>"total_loss"\<close>, \<open>model_step\<close> returns
  and the \<open>total_loss\<close> entry of its mapping is the sum over the list of loss functions of
  the weight times the value the function returns on the prediction, the images and the
  encoded labels; with no loss function the entry is 0.
\<close>

theorem model_step_total_loss:
  assumes "''total_loss'' \<notin> tag ` set (loss_fns s)"
  shows "\<exists>losses. model_step s (images, labels) = Inr (losses, forward s images, images, labels) \<and>
     dict_get losses ''total_loss'' =
       Some (\<Sum>f\<leftarrow>loss_fns s. weight f * loss_call f (forward s images) images labels) \<and>
     (loss_fns s = [] \<longrightarrow> dict_get losses ''total_loss'' = Some 0)"
proof -
  let ?p = "forward s images"
  from model_step_returns [of s images labels] obtain losses where
    ms: "model_step s (images, labels) = Inr (losses, ?p, images, labels)" and
    run: "loss_loop (loss_fns s) ?p images labels [(''total_loss'', 0)] = Inr losses"
    by blast
  have start: "map_of [(''total_loss'', 0::real)] ''total_loss'' = Some 0" by simp
  have tot: "dict_get losses ''total_loss'' =
      Some (\<Sum>f\<leftarrow>loss_fns s. weight f * loss_call f ?p images labels)"
    using loss_loop_total [OF assms start run] by (simp add: dict_get_def)
  then have "loss_fns s = [] \<longrightarrow> dict_get losses ''total_loss'' = Some 0"
    by simp
  with ms tot show ?thesis by blast
qed

text \<open>
  Two loss functions with weights 0.5 and 2 and values 1 and 3 give the total
  \<open>0.5 * 1 + 2 * 3 = 6.5\<close>; the empty list gives 0.
\<close>

theorem model_step_total_loss_witness:
  "''total_loss'' \<notin> tag ` set (loss_fns (example_module
        [\<lparr> tag = ''a'', weight = 1/2, loss_call = (\<lambda>p i l. 1) \<rparr>,
         \<lparr> tag = ''b'', weight = 2, loss_call = (\<lambda>p i l. 3) \<rparr>] None False)) \<and>
   (\<exists>losses. model_step (example_module
        [\<lparr> tag = ''a'', weight = 1/2, loss_call = (\<lambda>p i l. 1) \<rparr>,
         \<lparr> tag = ''b'', weight = 2, loss_call = (\<lambda>p i l. 3) \<rparr>] None False) (4, 5)
        = Inr (losses, 4, 4, 5) \<and>
      dict_get losses ''total_loss'' = Some (13/2)) \<and>
   ''total_loss'' \<notin> tag ` set (loss_fns (example_module [] None False)) \<and>
   (\<exists>losses. model_step (example_module [] None False) (4, 5) = Inr (losses, 4, 4, 5) \<and>
      dict_get losses ''total_loss'' = Some 0)"
proof -
  let ?fns = "[\<lparr> tag = ''a'', weight = 1/2, loss_call = (\<lambda>p i l. 1) \<rparr>,
         \<lparr> tag = ''b'', weight = 2, loss_call = (\<lambda>p i l. 3) \<rparr>] :: nat loss_fn list"
  let ?m = "example_module ?fns None False"
  let ?e = "example_module [] None False"
  have fns: "loss_fns ?m = ?fns" and efns: "loss_fns ?e = []"
    by (simp_all add: example_module_def init_def)
  have fw: "forward ?m 4 = 4" and efw: "forward ?e 4 = 4"
    by (simp_all add: forward_def example_module_def example_net_def init_def)
  have h: "''total_loss'' \<notin> tag ` set (loss_fns ?m)"
    by (simp add: fns)
  have eh: "''total_loss'' \<notin> tag ` set (loss_fns ?e)"
    by (simp add: efns)
  from model_step_total_loss [OF h, of 4 5]
  have one: "\<exists>losses. model_step ?m (4, 5) = Inr (losses, 4, 4, 5) \<and>
      dict_get losses ''total_loss'' = Some (13/2)"
    unfolding fns fw by simp
  from model_step_total_loss [OF eh, of 4 5]
  have two: "\<exists>losses. model_step ?e (4, 5) = Inr (losses, 4, 4, 5) \<and>
      dict_get losses ''total_loss'' = Some 0"
    unfolding efns efw by simp
  from h one eh two show ?thesis by blast
qed

text \<open>
  C1 as stated, for every list of loss functions: it fails when a tag is \<open>"total_loss"\<close>.
  The running total lives in the same dictionary as the named losses, under the key
  \<open>"total_loss"\<close>, and a loss function of this tag overwrites the total with its own value
  before the total is read back. With a single such function of weight 2 and value 3 the
  entry is \<open>3 + 3 * 2 = 9\<close>, and the weighted sum is 6.
\<close>

theorem model_step_total_loss_tag_collision:
  "model_step (example_module [\<lparr> tag = ''total_loss'', weight = 2, loss_call = (\<lambda>p i l. 3) \<rparr>] None False)
      (0, 0)
     = Inr ([(''total_loss'', 9)], 0, 0, 0)
   \<and> dict_get [(''total_loss'', 9::real)] ''total_loss'' \<noteq>
       Some (\<Sum>f\<leftarrow>[\<lparr> tag = ''total_loss'', weight = 2, loss_call = (\<lambda>p i l. 3) \<rparr>].
               weight f * loss_call f (0::nat) 0 0)"
  by (simp add: model_step_def forward_def example_module_def example_net_def init_def
      dict_setitem_def dict_getitem_def dict_get_def)

text \<open>
  C10, as amended. When no loss function is tagged \<open>"total_loss"\<close>, \<open>model_step\<close> returns,
  its mapping has one entry for each key, the entry under a tag is the value of the last
  loss function of the list that has this tag (so earlier values under a shared tag are
  gone), and the entry under \<open>"total_loss"\<close> is the weighted sum over the whole list, every
  function of a shared tag included.
\<close>

theorem model_step_duplicate_tags:
  assumes "''total_loss'' \<notin> tag ` set (loss_fns s)"
  shows "\<exists>losses. model_step s (images, labels) = Inr (losses, forward s images, images, labels) \<and>
     distinct (map fst losses) \<and>
     (\<forall>k \<in> tag ` set (loss_fns s).
        dict_get losses k =
          Some (loss_call (last (filter (\<lambda>f. tag f = k) (loss_fns s))) (forward s images) images labels)) \<and>
     dict_get losses ''total_loss'' =
       Some (\<Sum>f\<leftarrow>loss_fns s. weight f * loss_call f (forward s images) images labels)"
proof -
  let ?p = "forward s images"
  from model_step_returns [of s images labels] obtain losses where
    ms: "model_step s (images, labels) = Inr (losses, ?p, images, labels)" and
    run: "loss_loop (loss_fns s) ?p images labels [(''total_loss'', 0)] = Inr losses"
    by blast
  have start: "map_of [(''total_loss'', 0::real)] ''total_loss'' = Some 0" by simp
  have d: "distinct (map fst losses)"
    using loss_loop_distinct [OF run] by simp
  have tot: "dict_get losses ''total_loss'' =
      Some (\<Sum>f\<leftarrow>loss_fns s. weight f * loss_call f ?p images labels)"
    using loss_loop_total [OF assms start run] by (simp add: dict_get_def)
  have ent: "dict_get losses k =
      Some (loss_call (last (filter (\<lambda>f. tag f = k) (loss_fns s))) ?p images labels)"
    if "k \<in> tag ` set (loss_fns s)" for k
  proof -
    from that assms have "k \<noteq> ''total_loss''" by blast
    from loss_loop_entry [OF assms start run this] that show ?thesis
      by (simp add: dict_get_def)
  qed
  from ms d tot ent show ?thesis by blast
qed

text \<open>
  Two loss functions share the tag \<open>"ce"\<close>, with weights 0.5 and 2 and values 1 and 3: the
  mapping holds 3 under \<open>"ce"\<close>, and the total is \<open>0.5 * 1 + 2 * 3 = 6.5\<close>.
\<close>

theorem model_step_duplicate_tags_witness:
  "''total_loss'' \<notin> tag ` set (loss_fns (example_module
        [\<lparr> tag = ''ce'', weight = 1/2, loss_call = (\<lambda>p i l. 1) \<rparr>,
         \<lparr> tag = ''ce'', weight = 2, loss_call = (\<lambda>p i l. 3) \<rparr>] None False)) \<and>
   (\<exists>losses. model_step (example_module
        [\<lparr> tag = ''ce'', weight = 1/2, loss_call = (\<lambda>p i l. 1) \<rparr>,
         \<lparr> tag = ''ce'', weight = 2, loss_call = (\<lambda>p i l. 3) \<rparr>] None False) (4, 5)
        = Inr (losses, 4, 4, 5) \<and>
      distinct (map fst losses) \<and>
      dict_get losses ''ce'' = Some 3 \<and>
      dict_get losses ''total_loss'' = Some (13/2))"
proof -
  let ?m = "example_module
        [\<lparr> tag = ''ce'', weight = 1/2, loss_call = (\<lambda>p i l. 1) \<rparr>,
         \<lparr> tag = ''ce'', weight = 2, loss_call = (\<lambda>p i l. 3) \<rparr>] None False"
  have fns: "loss_fns ?m = [\<lparr> tag = ''ce'', weight = 1/2, loss_call = (\<lambda>p i l. 1) \<rparr>,
         \<lparr> tag = ''ce'', weight = 2, loss_call = (\<lambda>p i l. 3) \<rparr>]"
    by (simp add: example_module_def init_def)
  have fw: "forward ?m 4 = 4"
    by (simp add: forward_def example_module_def example_net_def init_def)
  have h: "''total_loss'' \<notin> tag ` set (loss_fns ?m)"
    by (simp add: fns)
  from model_step_duplicate_tags [OF h, of 4 5] show ?thesis
    unfolding fns fw by (simp add: h [unfolded fns])
qed

text \<open>
  C10 as stated, for every list: it fails when the shared tag is \<open>"total_loss"\<close>. With two
  such functions of weight 1 and values 1 and 2, the mapping holds 4 under the tag, neither
  the last function's value 2 nor the weighted sum 3.
\<close>

theorem model_step_shared_total_loss_tag:
  "model_step (example_module
        [\<lparr> tag = ''total_loss'', weight = 1, loss_call = (\<lambda>p i l. 1) \<rparr>,
         \<lparr> tag = ''total_loss'', weight = 1, loss_call = (\<lambda>p i l. 2) \<rparr>] None False) (0, 0)
     = Inr ([(''total_loss'', 4)], 0, 0, 0)
   \<and> dict_get [(''total_loss'', 4::real)] ''total_loss'' \<noteq> Some 2
   \<and> dict_get [(''total_loss'', 4::real)] ''total_loss'' \<noteq>
       Some (\<Sum>f\<leftarrow>[\<lparr> tag = ''total_loss'', weight = 1, loss_call = (\<lambda>p i l. 1) \<rparr>,
                   \<lparr> tag = ''total_loss'', weight = 1, loss_call = (\<lambda>p i l. 2) \<rparr>].
               weight f * loss_call f (0::nat) 0 0)"
  by (simp add: model_step_def forward_def example_module_def example_net_def init_def
      dict_setitem_def dict_getitem_def dict_get_def)

subsection \<open>Rounding to a double\<close>

text \<open>Rounding to an integer moves a quotient by at most one half.\<close>

lemma round_half_even_error:
  assumes "0 < d"
  shows "\<bar>real_of_int (round_half_even n d) - real_of_int n / real_of_int d\<bar> \<le> 1 / 2"
proof -
  let ?q = "n div d" and ?r = "n mod d"
  define f where "f = real_of_int ?r / real_of_int d"
  have "n = d * ?q + ?r" by simp
  then have "real_of_int n = real_of_int d * real_of_int ?q + real_of_int ?r"
    by (metis of_int_add of_int_mult)
  then have x: "real_of_int n / real_of_int d = real_of_int ?q + f"
    using assms by (simp add: f_def field_simps)
  have f2: "2 * f = real_of_int (2 * ?r) / real_of_int d"
    by (simp add: f_def)
  consider "2 * ?r < d" | "d < 2 * ?r" | "2 * ?r = d" by linarith
  then show ?thesis
  proof cases
    case 1
    then have "real_of_int (2 * ?r) < real_of_int d" by (simp only: of_int_less_iff)
    then have "2 * f < 1" unfolding f2 using assms by (simp add: field_simps)
    moreover have "0 \<le> f" using assms by (simp add: f_def)
    moreover have "round_half_even n d = ?q" using 1 by (simp add: round_half_even_def Let_def)
    ultimately show ?thesis unfolding x by simp
  next
    case 2
    then have "real_of_int d < real_of_int (2 * ?r)" by (simp only: of_int_less_iff)
    then have "1 < 2 * f" unfolding f2 using assms by (simp add: field_simps)
    moreover have "f < 1" using assms by (simp add: f_def)
    moreover have "round_half_even n d = ?q + 1" using 2 by (simp add: round_half_even_def Let_def)
    ultimately show ?thesis unfolding x by simp
  next
    case 3
    then have "real_of_int (2 * ?r) = real_of_int d" by simp
    then have "2 * f = 1" unfolding f2 using assms by simp
    moreover have "round_half_even n d = ?q \<or> round_half_even n d = ?q + 1"
      using 3 by (simp add: round_half_even_def Let_def)
    ultimately show ?thesis unfolding x by auto
  qed
qed

text \<open>Powers of two with an integer exponent.\<close>

lemma two_powi: "(2::real) ^ nat a / 2 ^ nat (- a) = 2 powi a"
  by (cases "0 \<le> a") (simp_all add: power_int_def field_simps)

lemma double_val_powi: "double_val (m, q) = real_of_int m * 2 powi q"
  by (simp add: double_val_def power_int_def field_simps)

text \<open>The exponent \<open>e\<close> of \<open>round_to_double\<close> is that of the leading bit: \<open>2^e \<le> a / d < 2^(e + 1)\<close>.\<close>

lemma bitlen_powi:
  assumes "0 < a"
  shows "2 powi (bitlen a - 1) \<le> real_of_int a" and "real_of_int a < 2 powi (bitlen a)"
proof -
  from bitlen_bounds [OF assms]
  have lo: "2 ^ nat (bitlen a - 1) \<le> a" and hi: "a < 2 ^ nat (bitlen a)" by simp_all
  have b: "1 \<le> bitlen a" using assms by (simp add: bitlen_alt_def)
  from lo have "real_of_int (2 ^ nat (bitlen a - 1)) \<le> real_of_int a" by (simp only: of_int_le_iff)
  then show "2 powi (bitlen a - 1) \<le> real_of_int a" using b by (simp add: power_int_def)
  from hi have "real_of_int a < real_of_int (2 ^ nat (bitlen a))" by (simp only: of_int_less_iff)
  then show "real_of_int a < 2 powi (bitlen a)" using b by (simp add: power_int_def)
qed

lemma exponent_test:
  assumes "0 < d"
  shows "(d * 2 ^ nat k \<le> a * 2 ^ nat (- k)) = (2 powi k \<le> real_of_int a / real_of_int d)"
proof -
  have "(d * 2 ^ nat k \<le> a * 2 ^ nat (- k)) =
      (real_of_int (d * 2 ^ nat k) \<le> real_of_int (a * 2 ^ nat (- k)))"
    by (simp only: of_int_le_iff)
  also have "\<dots> = (real_of_int d * 2 ^ nat k \<le> real_of_int a * 2 ^ nat (- k))"
    by simp
  also have "\<dots> = (2 ^ nat k / 2 ^ nat (- k) \<le> real_of_int a / real_of_int d)"
    using assms by (simp add: field_simps)
  finally show ?thesis by (simp only: two_powi)
qed


lemma quotient_less:
  fixes a d A D :: real
  assumes "0 \<le> a" "a < A" "0 < D" "D \<le> d"
  shows "a / d < A / D"
proof -
  have d: "0 < d" using assms by linarith
  have "a * D \<le> a * d" using assms by (intro mult_left_mono) simp_all
  also have "a * d < A * d" using assms d by (intro mult_strict_right_mono) simp_all
  finally have "a * D < A * d" .
  then show ?thesis using d assms(3) by (simp add: field_simps)
qed

lemma quotient_greater:
  fixes a d A D :: real
  assumes "0 < A" "A \<le> a" "0 < d" "d < D"
  shows "A / D < a / d"
proof -
  have D: "0 < D" using assms by linarith
  have "A * d < A * D" using assms by (intro mult_strict_left_mono) simp_all
  also have "A * D \<le> a * D" using assms D by (intro mult_right_mono) simp_all
  finally have "A * d < a * D" .
  then show ?thesis using D assms(3) by (simp add: field_simps)
qed

lemma exponent_range:
  assumes "0 < a" "0 < d"
  defines "k \<equiv> bitlen a - bitlen d"
  defines "e \<equiv> (if d * 2 ^ nat k \<le> a * 2 ^ nat (- k) then k else k - 1)"
  shows "2 powi e \<le> real_of_int a / real_of_int d"
    and "real_of_int a / real_of_int d < 2 powi (e + 1)"
proof -
  let ?r = "real_of_int a / real_of_int d"
  note a = bitlen_powi [OF assms(1)] and d = bitlen_powi [OF assms(2)]
  have apos: "0 \<le> real_of_int a" and dpos: "0 < real_of_int d" using assms(1,2) by simp_all
  have p: "0 < (2::real) powi z" for z by simp
  have "?r < 2 powi (bitlen a) / 2 powi (bitlen d - 1)"
    by (rule quotient_less [OF apos a(2) p d(1)])
  also have "\<dots> = 2 powi (k + 1)"
  proof -
    have "k + 1 = bitlen a - (bitlen d - 1)" by (simp add: k_def)
    then have "(2::real) powi (k + 1) = 2 powi (bitlen a - (bitlen d - 1))" by (rule arg_cong)
    also have "\<dots> = 2 powi (bitlen a) / 2 powi (bitlen d - 1)"
      by (rule power_int_diff) simp
    finally show ?thesis by (rule sym)
  qed
  finally have up: "?r < 2 powi (k + 1)" .
  have "2 powi (bitlen a - 1) / 2 powi (bitlen d) < ?r"
    by (rule quotient_greater [OF p a(1) dpos d(2)])
  moreover have "2 powi (bitlen a - 1) / 2 powi (bitlen d) = (2::real) powi (k - 1)"
  proof -
    have "k - 1 = (bitlen a - 1) - bitlen d" by (simp add: k_def)
    then have "(2::real) powi (k - 1) = 2 powi ((bitlen a - 1) - bitlen d)" by (rule arg_cong)
    also have "\<dots> = 2 powi (bitlen a - 1) / 2 powi (bitlen d)"
      by (rule power_int_diff) simp
    finally show ?thesis by (rule sym)
  qed
  ultimately have low: "2 powi (k - 1) < ?r" by simp
  have t: "(d * 2 ^ nat k \<le> a * 2 ^ nat (- k)) = (2 powi k \<le> ?r)"
    by (rule exponent_test [OF assms(2)])
  show "2 powi e \<le> ?r"
  proof (cases "d * 2 ^ nat k \<le> a * 2 ^ nat (- k)")
    case True
    then show ?thesis using t by (simp add: e_def)
  next
    case False
    then show ?thesis using low by (simp add: e_def)
  qed
  show "?r < 2 powi (e + 1)"
  proof (cases "d * 2 ^ nat k \<le> a * 2 ^ nat (- k)")
    case True
    then show ?thesis using up by (simp add: e_def)
  next
    case False
    then show ?thesis using t by (simp add: e_def)
  qed
qed


text \<open>Rounding to a double has a relative error of at most \<open>2^-53\<close>.\<close>

lemma round_to_double_error:
  assumes "0 < d"
  shows "\<bar>double_val (round_to_double n d) - real_of_int n / real_of_int d\<bar>
           \<le> \<bar>real_of_int n / real_of_int d\<bar> / 2 ^ 53"
proof (cases "n = 0")
  case True
  then show ?thesis by (simp add: round_to_double_def double_val_def)
next
  case False
  let ?x = "real_of_int n / real_of_int d"
  define k where "k = bitlen \<bar>n\<bar> - bitlen d"
  define e where "e = (if d * 2 ^ nat k \<le> \<bar>n\<bar> * 2 ^ nat (- k) then k else k - 1)"
  define q where "q = e - 52"
  define m where "m = round_half_even (n * 2 ^ nat (- q)) (d * 2 ^ nat q)"
  have r: "round_to_double n d = (m, q)"
    using False by (simp add: round_to_double_def Let_def k_def e_def q_def m_def)
  have a: "0 < \<bar>n\<bar>" using False by simp
  have ax: "real_of_int \<bar>n\<bar> / real_of_int d = \<bar>?x\<bar>"
    using assms by simp
  have lo: "2 powi e \<le> \<bar>?x\<bar>"
    using exponent_range(1) [OF a assms] unfolding k_def [symmetric] e_def [symmetric] ax .
  have D: "0 < d * 2 ^ nat q" using assms by simp
  define y where "y = real_of_int (n * 2 ^ nat (- q)) / real_of_int (d * 2 ^ nat q)"
  have half: "\<bar>real_of_int m - y\<bar> \<le> 1 / 2"
    unfolding m_def y_def by (rule round_half_even_error [OF D])
  have "y = ?x * (2 ^ nat (- q) / 2 ^ nat (- (- q)))"
    by (simp add: y_def)
  then have y: "y = ?x * 2 powi (- q)" by (simp only: two_powi)
  have pq: "(2::real) powi (- q) * 2 powi q = 1"
    by (simp add: power_int_minus)
  have x: "?x = y * 2 powi q"
    unfolding y using pq by (simp add: mult.assoc)
  have "double_val (round_to_double n d) - ?x = (real_of_int m - y) * 2 powi q"
    unfolding r double_val_powi by (subst x) (simp add: algebra_simps)
  then have "\<bar>double_val (round_to_double n d) - ?x\<bar> = \<bar>real_of_int m - y\<bar> * 2 powi q"
    by (simp add: abs_mult)
  also have "\<dots> \<le> 1 / 2 * 2 powi q"
    using half by (intro mult_right_mono) simp_all
  also have "(2::real) powi q = 2 powi e / 2 ^ 52"
  proof -
    have "(2::real) powi (e - 52) = 2 powi e / 2 powi 52" by (rule power_int_diff) simp
    then show ?thesis by (simp add: q_def)
  qed
  also have "1 / 2 * (2 powi e / 2 ^ 52) \<le> 1 / 2 * (\<bar>?x\<bar> / 2 ^ 52)"
    using lo by (intro mult_left_mono divide_right_mono) simp_all
  also have "\<dots> = \<bar>?x\<bar> / 2 ^ 53" by simp
  finally show ?thesis .
qed


lemma int_truediv_error:
  assumes "b \<noteq> 0"
  shows "\<exists>r. int_truediv a b = Inr r \<and>
    \<bar>double_val r - real_of_int a / real_of_int b\<bar> \<le> \<bar>real_of_int a / real_of_int b\<bar> / 2 ^ 53"
proof (cases "b < 0")
  case True
  then have "0 < - b" by simp
  from round_to_double_error [OF this, of "- a"] True show ?thesis
    by (simp add: int_truediv_def)
next
  case False
  with assms have "0 < b" by simp
  from round_to_double_error [OF this, of a] False assms show ?thesis
    by (simp add: int_truediv_def)
qed

lemma float_of_int_100: "double_val (float_of_int 100) = 100"
  by (simp add: float_of_int_def round_to_double_def round_half_even_def compute_bitlen Let_def
      double_val_def)

lemma float_mul_error:
  "\<bar>double_val (float_mul x y) - double_val x * double_val y\<bar>
     \<le> \<bar>double_val x * double_val y\<bar> / 2 ^ 53"
proof -
  obtain m1 e1 where x: "x = (m1, e1)" by (cases x)
  obtain m2 e2 where y: "y = (m2, e2)" by (cases y)
  let ?s = "e1 + e2"
  have D: "(0::int) < 2 ^ nat (- ?s)" by simp
  have "real_of_int (m1 * m2 * 2 ^ nat ?s) / real_of_int (2 ^ nat (- ?s)) =
      real_of_int m1 * real_of_int m2 * (2 ^ nat ?s / 2 ^ nat (- ?s))"
    by simp
  also have "\<dots> = real_of_int m1 * real_of_int m2 * 2 powi ?s"
    by (simp only: two_powi)
  also have "\<dots> = double_val x * double_val y"
    unfolding x y double_val_powi by (simp add: power_int_add)
  finally have p: "real_of_int (m1 * m2 * 2 ^ nat ?s) / real_of_int (2 ^ nat (- ?s)) =
      double_val x * double_val y" .
  have f: "float_mul x y = round_to_double (m1 * m2 * 2 ^ nat ?s) (2 ^ nat (- ?s))"
    by (simp add: float_mul_def x y)
  from round_to_double_error [OF D, of "m1 * m2 * 2 ^ nat ?s"] show ?thesis
    unfolding f p .
qed

text \<open>Two roundings in a row, the second after a product with 100.\<close>

lemma accuracy_error_gen:
  fixes v r x u :: real
  assumes u: "0 \<le> u"
    and r: "\<bar>r - x\<bar> \<le> \<bar>x\<bar> * u"
    and v: "\<bar>v - r * 100\<bar> \<le> \<bar>r * 100\<bar> * u"
  shows "\<bar>v - 100 * x\<bar> \<le> \<bar>100 * x\<bar> * (2 * u + u * u)"
proof -
  have "\<bar>r\<bar> \<le> \<bar>x\<bar> + \<bar>r - x\<bar>" by linarith
  with r have rb: "\<bar>r\<bar> \<le> \<bar>x\<bar> + \<bar>x\<bar> * u" by linarith
  have "\<bar>r * 100\<bar> * u = 100 * (\<bar>r\<bar> * u)" by (simp add: abs_mult)
  also have "\<bar>r\<bar> * u \<le> (\<bar>x\<bar> + \<bar>x\<bar> * u) * u"
    using rb u by (rule mult_right_mono)
  finally have "\<bar>r * 100\<bar> * u \<le> 100 * ((\<bar>x\<bar> + \<bar>x\<bar> * u) * u)" by simp
  with v have a: "\<bar>v - r * 100\<bar> \<le> 100 * ((\<bar>x\<bar> + \<bar>x\<bar> * u) * u)" by linarith
  have "\<bar>r * 100 - 100 * x\<bar> = 100 * \<bar>r - x\<bar>" by (simp add: abs_if)
  with r have b: "\<bar>r * 100 - 100 * x\<bar> \<le> 100 * (\<bar>x\<bar> * u)" by linarith
  have "\<bar>v - 100 * x\<bar> \<le> \<bar>v - r * 100\<bar> + \<bar>r * 100 - 100 * x\<bar>" by linarith
  also have "\<dots> \<le> 100 * ((\<bar>x\<bar> + \<bar>x\<bar> * u) * u) + 100 * (\<bar>x\<bar> * u)"
    using a b by linarith
  also have "\<dots> = \<bar>100 * x\<bar> * (2 * u + u * u)"
    by (simp add: abs_mult algebra_simps)
  finally show ?thesis .
qed

lemma accuracy_error:
  fixes v r x :: real
  assumes r: "\<bar>r - x\<bar> \<le> \<bar>x\<bar> / 2 ^ 53"
    and v: "\<bar>v - r * 100\<bar> \<le> \<bar>r * 100\<bar> / 2 ^ 53"
  shows "\<bar>v - 100 * x\<bar> \<le> \<bar>100 * x\<bar> * (2 / 2 ^ 53 + 1 / 2 ^ 106)"
proof -
  define u :: real where "u = 1 / 2 ^ 53"
  have u0: "0 \<le> u" by (simp add: u_def)
  have uu: "2 * u + u * u = 2 / 2 ^ 53 + 1 / 2 ^ 106" by (simp add: u_def)
  have r': "\<bar>r - x\<bar> \<le> \<bar>x\<bar> * u" using r by (simp add: u_def)
  have v': "\<bar>v - r * 100\<bar> \<le> \<bar>r * 100\<bar> * u" using v by (simp add: u_def)
  from accuracy_error_gen [OF u0 r' v'] show ?thesis unfolding uu .
qed

subsection \<open>The test counters and the test accuracy (C2, C3)\<close>

text \<open>\<open>test_step\<close> returns on every batch; its result, field by field.\<close>

lemma test_step_returns:
  "\<exists>losses. model_step s (images, labels) = Inr (losses, forward s images, images, labels) \<and>
     test_step ga s (images, labels) idx =
       Inr (s\<lparr> correct_count := fst (ga (net s) (device s) images labels),
               total_count := snd (ga (net s) (device s) images labels),
               test_loss := test_loss s @ [dict_get losses ''total_loss''],
               trace := trace s @ GetAccuracy images labels #
                 map (\<lambda>(n, v). Log (''test/'' @ n) v (Some False) (Some True) True) losses \<rparr>)"
proof -
  from model_step_returns [of s images labels] obtain losses where
    ms: "model_step s (images, labels) = Inr (losses, forward s images, images, labels)"
    by blast
  from ms test_step_eq [OF ms, of ga idx] show ?thesis by blast
qed

text \<open>
  After a run of test steps over a non-empty list of batches, the counters are what the
  visualizer returned on the last batch. The network and the device stay as they were.
\<close>

lemma test_steps_last:
  "batches \<noteq> [] \<Longrightarrow>
     \<exists>s'. test_steps ga s batches = Inr s' \<and> net s' = net s \<and> device s' = device s \<and>
       correct_count s' = fst (ga (net s) (device s) (fst (fst (last batches))) (snd (fst (last batches)))) \<and>
       total_count s' = snd (ga (net s) (device s) (fst (fst (last batches))) (snd (fst (last batches))))"
proof (induction batches arbitrary: s)
  case Nil
  then show ?case by simp
next
  case (Cons b rest)
  obtain images labels idx where b: "b = ((images, labels), idx)"
    by (metis prod.collapse)
  from test_step_returns [of s images labels ga idx] obtain s1 where
    step: "test_step ga s (images, labels) idx = Inr s1" and
    frame: "net s1 = net s" "device s1 = device s" and
    cnt: "correct_count s1 = fst (ga (net s) (device s) images labels)"
         "total_count s1 = snd (ga (net s) (device s) images labels)"
    by auto
  show ?case
  proof (cases "rest = []")
    case True
    with step frame cnt b show ?thesis by simp
  next
    case False
    from Cons.IH [OF False, of s1] step frame b False show ?thesis by simp
  qed
qed

text \<open>
  With a non-zero \<open>total_count\<close> the hook returns. It logs the product with 100 of the
  quotient of the counters, both rounded to a double, which is off \<open>100 * c / t\<close> by at most
  the relative error of two roundings.
\<close>

lemma on_test_epoch_end_value:
  assumes "total_count s \<noteq> 0"
  shows "\<exists>q. int_truediv (correct_count s) (total_count s) = Inr q \<and>
     on_test_epoch_end s =
       Inr (s\<lparr> trace := trace s @
         [Log ''Test Dataset Accuracy'' (double_val (float_mul q (float_of_int 100)))
            None None False] \<rparr>) \<and>
     \<bar>double_val (float_mul q (float_of_int 100)) -
        100 * (real_of_int (correct_count s) / real_of_int (total_count s))\<bar>
       \<le> \<bar>100 * (real_of_int (correct_count s) / real_of_int (total_count s))\<bar> *
           (2 / 2 ^ 53 + 1 / 2 ^ 106)"
proof -
  let ?x = "real_of_int (correct_count s) / real_of_int (total_count s)"
  from int_truediv_error [OF assms, of "correct_count s"] obtain q where
    q: "int_truediv (correct_count s) (total_count s) = Inr q" and
    qe: "\<bar>double_val q - ?x\<bar> \<le> \<bar>?x\<bar> / 2 ^ 53"
    by blast
  have ve: "\<bar>double_val (float_mul q (float_of_int 100)) - double_val q * 100\<bar>
      \<le> \<bar>double_val q * 100\<bar> / 2 ^ 53"
    using float_mul_error [of q "float_of_int 100"] by (simp only: float_of_int_100)
  have run: "on_test_epoch_end s =
       Inr (s\<lparr> trace := trace s @
         [Log ''Test Dataset Accuracy'' (double_val (float_mul q (float_of_int 100)))
            None None False] \<rparr>)"
    by (simp add: on_test_epoch_end_def q log_call_def)
  from q run accuracy_error [OF qe ve] show ?thesis by blast
qed

text \<open>
  C2, as amended. When the stored \<open>total_count\<close> is not zero, \<open>on_test_epoch_end\<close> returns
  and makes one call, \<open>self.log("Test Dataset Accuracy", v)\<close>, where \<open>v\<close> is
  \<open>correct_count / total_count * 100\<close> as double arithmetic computes it: the quotient of the
  two counters rounded to a double, then its product with 100 rounded to a double. This
  \<open>v\<close> differs from \<open>100 * correct_count / total_count\<close> by at most the relative error
  \<open>2^-52 + 2^-106\<close>. After a test epoch over a non-empty list of batches the two counters
  are the pair \<open>(c, t)\<close> the visualizer returned on the last batch, and the same holds of
  \<open>c\<close> and \<open>t\<close>.
\<close>

theorem on_test_epoch_end_accuracy:
  "(total_count s \<noteq> 0 \<longrightarrow>
      (\<exists>q. int_truediv (correct_count s) (total_count s) = Inr q \<and>
         on_test_epoch_end s =
           Inr (s\<lparr> trace := trace s @
             [Log ''Test Dataset Accuracy'' (double_val (float_mul q (float_of_int 100)))
                None None False] \<rparr>) \<and>
         \<bar>double_val (float_mul q (float_of_int 100)) -
            100 * (real_of_int (correct_count s) / real_of_int (total_count s))\<bar>
           \<le> \<bar>100 * (real_of_int (correct_count s) / real_of_int (total_count s))\<bar> *
               (2 / 2 ^ 53 + 1 / 2 ^ 106))) \<and>
   (batches \<noteq> [] \<and>
    ga (net s) (device s) (fst (fst (last batches))) (snd (fst (last batches))) = (c, t) \<and> t \<noteq> 0 \<longrightarrow>
      (\<exists>s1 q. test_steps ga s batches = Inr s1 \<and>
         int_truediv c t = Inr q \<and>
         on_test_epoch_end s1 =
           Inr (s1\<lparr> trace := trace s1 @
             [Log ''Test Dataset Accuracy'' (double_val (float_mul q (float_of_int 100)))
                None None False] \<rparr>) \<and>
         \<bar>double_val (float_mul q (float_of_int 100)) - 100 * (real_of_int c / real_of_int t)\<bar>
           \<le> \<bar>100 * (real_of_int c / real_of_int t)\<bar> * (2 / 2 ^ 53 + 1 / 2 ^ 106)))"
proof -
  have two: "\<exists>s1 q. test_steps ga s batches = Inr s1 \<and>
         int_truediv c t = Inr q \<and>
         on_test_epoch_end s1 =
           Inr (s1\<lparr> trace := trace s1 @
             [Log ''Test Dataset Accuracy'' (double_val (float_mul q (float_of_int 100)))
                None None False] \<rparr>) \<and>
         \<bar>double_val (float_mul q (float_of_int 100)) - 100 * (real_of_int c / real_of_int t)\<bar>
           \<le> \<bar>100 * (real_of_int c / real_of_int t)\<bar> * (2 / 2 ^ 53 + 1 / 2 ^ 106)"
    if ne: "batches \<noteq> []"
      and ga: "ga (net s) (device s) (fst (fst (last batches))) (snd (fst (last batches))) = (c, t)"
      and t: "t \<noteq> 0"
  proof -
    from test_steps_last [OF ne, of ga s] ga obtain s1 where
      run: "test_steps ga s batches = Inr s1" and cnt: "correct_count s1 = c" "total_count s1 = t"
      by auto
    from cnt t have "total_count s1 \<noteq> 0" by simp
    from on_test_epoch_end_value [OF this] run show ?thesis
      unfolding cnt by blast
  qed
  from on_test_epoch_end_value [of s] two show ?thesis by blast
qed

text \<open>
  With the counters 45 and 50 the logged value is 90. With two batches on which the
  visualizer returns \<open>(4, 5)\<close> and \<open>(8, 10)\<close>, the logged value is 80.
\<close>

theorem on_test_epoch_end_accuracy_witness:
  "total_count ((example_module [] None False)\<lparr> correct_count := 45, total_count := 50 \<rparr>) \<noteq> 0 \<and>
   on_test_epoch_end ((example_module [] None False)\<lparr> correct_count := 45, total_count := 50 \<rparr>) =
     Inr ((example_module [] None False)
            \<lparr> correct_count := 45, total_count := 50,
              trace := [Log ''Test Dataset Accuracy'' 90 None None False] \<rparr>) \<and>
   (\<exists>s1. test_steps (\<lambda>n d i l. (int i * 4, int l * 5)) (example_module [] None False)
            [((1, 1), 0), ((2, 2), 1)] = Inr s1 \<and>
      on_test_epoch_end s1 =
        Inr (s1\<lparr> trace := trace s1 @ [Log ''Test Dataset Accuracy'' 80 None None False] \<rparr>))"
proof -
  let ?m = "example_module [] None False"
  let ?s = "?m\<lparr> correct_count := 45, total_count := 50 \<rparr>"
  let ?ga = "\<lambda>(n :: nat network) (d :: nat) (i :: nat) (l :: nat). (int i * 4, int l * 5)"
  let ?bs = "[((1, 1), 0), ((2, 2), 1)] :: ((nat \<times> nat) \<times> int) list"
  have hundred: "float_of_int 100 = (7036874417766400, -46)"
    by (simp add: float_of_int_def round_to_double_def round_half_even_def compute_bitlen Let_def)
  have d1: "int_truediv 45 50 = Inr (8106479329266893, -53)"
    by (simp add: int_truediv_def round_to_double_def round_half_even_def compute_bitlen Let_def)
  have m1: "double_val (float_mul (8106479329266893, -53) (7036874417766400, -46)) = 90"
    by (simp add: float_mul_def round_to_double_def round_half_even_def compute_bitlen Let_def
        double_val_def)
  have d2: "int_truediv 8 10 = Inr (7205759403792794, -53)"
    by (simp add: int_truediv_def round_to_double_def round_half_even_def compute_bitlen Let_def)
  have m2: "double_val (float_mul (7205759403792794, -53) (7036874417766400, -46)) = 80"
    by (simp add: float_mul_def round_to_double_def round_half_even_def compute_bitlen Let_def
        double_val_def)
  have h1: "total_count ?s \<noteq> 0" by simp
  have h2: "?bs \<noteq> [] \<and>
      ?ga (net ?m) (device ?m) (fst (fst (last ?bs))) (snd (fst (last ?bs))) = (8, 10) \<and> (10::int) \<noteq> 0"
    by simp
  have cs: "correct_count ?s = 45" "total_count ?s = 50" by simp_all
  have t: "trace ?s = []" by (simp add: example_module_def init_def)
  from on_test_epoch_end_accuracy [of ?s ?bs ?ga 8 10, THEN conjunct1] h1
  obtain q where q: "int_truediv (correct_count ?s) (total_count ?s) = Inr q"
    and run: "on_test_epoch_end ?s =
           Inr (?s\<lparr> trace := trace ?s @
             [Log ''Test Dataset Accuracy'' (double_val (float_mul q (float_of_int 100)))
                None None False] \<rparr>)"
    by blast
  from q have qv: "q = (8106479329266893, -53)"
    unfolding cs d1 by simp
  from run have c1: "on_test_epoch_end ?s =
     Inr (?m\<lparr> correct_count := 45, total_count := 50,
              trace := [Log ''Test Dataset Accuracy'' 90 None None False] \<rparr>)"
    unfolding qv hundred m1 t by simp
  from on_test_epoch_end_accuracy [of ?m ?bs ?ga 8 10, THEN conjunct2] h2
  obtain s1 q' where steps: "test_steps ?ga ?m ?bs = Inr s1" and q': "int_truediv 8 10 = Inr q'"
    and run': "on_test_epoch_end s1 =
           Inr (s1\<lparr> trace := trace s1 @
             [Log ''Test Dataset Accuracy'' (double_val (float_mul q' (float_of_int 100)))
                None None False] \<rparr>)"
    by blast
  from q' have qv': "q' = (7205759403792794, -53)"
    unfolding d2 by simp
  from run' have "on_test_epoch_end s1 =
        Inr (s1\<lparr> trace := trace s1 @ [Log ''Test Dataset Accuracy'' 80 None None False] \<rparr>)"
    unfolding qv' hundred m2 .
  with steps have c2: "\<exists>s1. test_steps ?ga ?m ?bs = Inr s1 \<and>
      on_test_epoch_end s1 =
        Inr (s1\<lparr> trace := trace s1 @ [Log ''Test Dataset Accuracy'' 80 None None False] \<rparr>)"
    by blast
  from h1 c1 c2 show ?thesis by blast
qed

text \<open>
  C2 as stated, with the logged value equal to \<open>100 * correct_count / total_count\<close>: it
  fails at the counters 57 and 100. The quotient \<open>57 / 100\<close> is rounded to the double
  \<open>5134103575202365 / 2^53\<close>, a little under 0.57, and its product with 100 is rounded to
  \<open>8022036836253695 / 2^47\<close>, the double just under 57, printed as
  \<open>56.99999999999999\<close>; and \<open>100 * 57 / 100\<close> is 57.
\<close>

theorem on_test_epoch_end_rounds_twice:
  "on_test_epoch_end ((example_module [] None False)\<lparr> correct_count := 57, total_count := 100 \<rparr>) =
     Inr ((example_module [] None False)
            \<lparr> correct_count := 57, total_count := 100,
              trace := [Log ''Test Dataset Accuracy'' (8022036836253695 / 2 ^ 47) None None False] \<rparr>) \<and>
   (8022036836253695 / 2 ^ 47 :: real) \<noteq> 100 * real_of_int 57 / real_of_int 100"
  by (simp add: on_test_epoch_end_def int_truediv_def float_mul_def float_of_int_def
      round_to_double_def round_half_even_def compute_bitlen Let_def double_val_def log_call_def
      example_module_def init_def)

text \<open>
  C3. \<open>test_step\<close> returns on every batch, and afterwards \<open>(correct_count, total_count)\<close> is
  the pair \<open>get_accuracy\<close> returned for this batch, whatever the counters were before. After
  any non-empty sequence of test steps the counters are the pair of the last batch.
\<close>

theorem test_step_overwrites_counters:
  "(\<exists>s'. test_step ga s (images, labels) idx = Inr s' \<and>
      (correct_count s', total_count s') = ga (net s) (device s) images labels) \<and>
   (batches \<noteq> [] \<longrightarrow>
      (\<exists>s'. test_steps ga s batches = Inr s' \<and>
         (correct_count s', total_count s') =
           ga (net s) (device s) (fst (fst (last batches))) (snd (fst (last batches)))))"
proof -
  from test_step_returns [of s images labels ga idx]
  have one: "\<exists>s'. test_step ga s (images, labels) idx = Inr s' \<and>
      (correct_count s', total_count s') = ga (net s) (device s) images labels"
    by auto
  have two: "\<exists>s'. test_steps ga s batches = Inr s' \<and>
         (correct_count s', total_count s') =
           ga (net s) (device s) (fst (fst (last batches))) (snd (fst (last batches)))"
    if "batches \<noteq> []"
    using test_steps_last [OF that, of ga s] by auto
  from one two show ?thesis by blast
qed

text \<open>
  Starting from the counters 45 and 50, two batches with the pairs \<open>(4, 5)\<close> and \<open>(8, 10)\<close>
  leave the counters at 8 and 10.
\<close>

theorem test_step_overwrites_counters_witness:
  "[((1, 1), 0), ((2, 2), 1)] \<noteq> ([] :: ((nat \<times> nat) \<times> int) list) \<and>
   (\<exists>s'. test_steps (\<lambda>n d i l. (int i * 4, int l * 5))
            ((example_module [] None False)\<lparr> correct_count := 45, total_count := 50 \<rparr>)
            [((1, 1), 0), ((2, 2), 1)] = Inr s' \<and>
      (correct_count s', total_count s') = (8, 10))"
proof -
  let ?s = "(example_module [] None False)\<lparr> correct_count := 45, total_count := 50 \<rparr>"
  let ?ga = "\<lambda>(n :: nat network) (d :: nat) (i :: nat) (l :: nat). (int i * 4, int l * 5)"
  let ?bs = "[((1, 1), 0), ((2, 2), 1)] :: ((nat \<times> nat) \<times> int) list"
  have h: "?bs \<noteq> []" by simp
  have "\<exists>s'. test_steps ?ga ?s ?bs = Inr s' \<and>
         (correct_count s', total_count s') =
           ?ga (net ?s) (device ?s) (fst (fst (last ?bs))) (snd (fst (last ?bs)))"
    using test_step_overwrites_counters [of ?ga ?s 0 0 0 ?bs, THEN conjunct2] h by blast
  then have "\<exists>s'. test_steps ?ga ?s ?bs = Inr s' \<and> (correct_count s', total_count s') = (8, 10)"
    by simp
  with h show ?thesis by blast
qed

subsection \<open>Optimizer configuration (C4)\<close>

text \<open>
  C4. Without a scheduler factory, \<open>configure_optimizers\<close> returns a dictionary with the one
  key \<open>"optimizer"\<close>. With a scheduler factory the keys are \<open>"optimizer"\<close> and
  \<open>"lr_scheduler"\<close>, and the entry under \<open>"lr_scheduler"\<close> is a dictionary holding the
  scheduler the factory builds from the optimizer, the monitor \<open>"val/total_loss"\<close>, the
  interval \<open>"epoch"\<close> and the frequency 1.
\<close>

theorem configure_optimizers_dict:
  "(hp_scheduler (hparams s) = None \<longrightarrow>
      configure_optimizers params s = [(''optimizer'', Optimizer (hp_optimizer (hparams s) params))]) \<and>
   (\<forall>factory. hp_scheduler (hparams s) = Some factory \<longrightarrow>
      map fst (configure_optimizers params s) = [''optimizer'', ''lr_scheduler''] \<and>
      dict_get (configure_optimizers params s) ''optimizer'' =
        Some (Optimizer (hp_optimizer (hparams s) params)) \<and>
      (\<exists>d. dict_get (configure_optimizers params s) ''lr_scheduler'' = Some (Dict d) \<and>
         map fst d = [''scheduler'', ''monitor'', ''interval'', ''frequency''] \<and>
         dict_get d ''scheduler'' = Some (Scheduler (factory (hp_optimizer (hparams s) params))) \<and>
         dict_get d ''monitor'' = Some (Str ''val/total_loss'') \<and>
         dict_get d ''interval'' = Some (Str ''epoch'') \<and>
         dict_get d ''frequency'' = Some (Num 1)))"
  by (simp add: configure_optimizers_def dict_get_def Let_def)

text \<open>
  A module without a scheduler factory, and one whose factory is the successor function, both
  with the parameters 3.
\<close>

theorem configure_optimizers_dict_witness:
  "hp_scheduler (hparams (example_module [] None False)) = None \<and>
   configure_optimizers 3 (example_module [] None False) = [(''optimizer'', Optimizer 3)] \<and>
   hp_scheduler (hparams (example_module [] (Some Suc) False)) = Some Suc \<and>
   map fst (configure_optimizers 3 (example_module [] (Some Suc) False)) = [''optimizer'', ''lr_scheduler''] \<and>
   (\<exists>d. dict_get (configure_optimizers 3 (example_module [] (Some Suc) False)) ''lr_scheduler'' = Some (Dict d) \<and>
      dict_get d ''scheduler'' = Some (Scheduler 4) \<and>
      dict_get d ''monitor'' = Some (Str ''val/total_loss'') \<and>
      dict_get d ''interval'' = Some (Str ''epoch'') \<and>
      dict_get d ''frequency'' = Some (Num 1))"
proof -
  let ?m0 = "example_module [] None False"
  let ?m1 = "example_module [] (Some Suc) False"
  have h0: "hp_scheduler (hparams ?m0) = None"
    by (simp add: example_module_def init_def)
  have h1: "hp_scheduler (hparams ?m1) = Some Suc"
    by (simp add: example_module_def init_def)
  have o0: "hp_optimizer (hparams ?m0) 3 = 3" and o1: "hp_optimizer (hparams ?m1) 3 = 3"
    by (simp_all add: example_module_def init_def)
  from configure_optimizers_dict [of ?m0 3, THEN conjunct1] h0 o0
  have c0: "configure_optimizers 3 ?m0 = [(''optimizer'', Optimizer 3)]"
    by simp
  from configure_optimizers_dict [of ?m1 3, THEN conjunct2] h1
  have "map fst (configure_optimizers 3 ?m1) = [''optimizer'', ''lr_scheduler''] \<and>
      (\<exists>d. dict_get (configure_optimizers 3 ?m1) ''lr_scheduler'' = Some (Dict d) \<and>
         dict_get d ''scheduler'' = Some (Scheduler (Suc (hp_optimizer (hparams ?m1) 3))) \<and>
         dict_get d ''monitor'' = Some (Str ''val/total_loss'') \<and>
         dict_get d ''interval'' = Some (Str ''epoch'') \<and>
         dict_get d ''frequency'' = Some (Num 1))"
    by blast
  then have c1: "map fst (configure_optimizers 3 ?m1) = [''optimizer'', ''lr_scheduler''] \<and>
      (\<exists>d. dict_get (configure_optimizers 3 ?m1) ''lr_scheduler'' = Some (Dict d) \<and>
         dict_get d ''scheduler'' = Some (Scheduler 4) \<and>
         dict_get d ''monitor'' = Some (Str ''val/total_loss'') \<and>
         dict_get d ''interval'' = Some (Str ''epoch'') \<and>
         dict_get d ''frequency'' = Some (Num 1))"
    unfolding o1 by simp
  from h0 c0 h1 c1 show ?thesis by blast
qed

subsection \<open>The reset at the start of training (C7)\<close>

text \<open>
  C7, as amended. \<open>on_train_start\<close> resets the three validation accumulators: the running
  validation loss mean, the running validation accuracy and the best validation accuracy so
  far. The training and test accumulators are left as they are.
\<close>

theorem on_train_start_resets_validation_metrics:
  "val_loss (on_train_start s) = [] \<and>
   val_acc (on_train_start s) = [] \<and>
   val_acc_best (on_train_start s) = [] \<and>
   train_loss (on_train_start s) = train_loss s \<and>
   test_loss (on_train_start s) = test_loss s \<and>
   train_acc (on_train_start s) = train_acc s \<and>
   test_acc (on_train_start s) = test_acc s"
  by (simp add: on_train_start_def metric_reset_def)

text \<open>
  C7 as stated, for the module's accumulators without restriction: it fails for the running
  training loss mean. After one training step on a fresh module without loss functions,
  \<open>train_loss\<close> holds one value, and \<open>on_train_start\<close> leaves it there.
\<close>

theorem on_train_start_keeps_train_loss:
  "training_step (example_module [] None False) (0, 0) 0 =
     Inr (Some 0, (example_module [] None False)
            \<lparr> train_loss := [Some 0],
              trace := [Log ''train/total_loss'' 0 (Some False) (Some True) True] \<rparr>) \<and>
   train_loss (on_train_start ((example_module [] None False)
            \<lparr> train_loss := [Some 0],
              trace := [Log ''train/total_loss'' 0 (Some False) (Some True) True] \<rparr>)) = [Some 0] \<and>
   train_loss (on_train_start ((example_module [] None False)
            \<lparr> train_loss := [Some 0],
              trace := [Log ''train/total_loss'' 0 (Some False) (Some True) True] \<rparr>)) \<noteq> metric_reset [Some 0]"
  by (simp add: training_step_def model_step_def forward_def example_module_def example_net_def
      init_def dict_setitem_def dict_get_def metric_call_def metric_reset_def log_call_def
      on_train_start_def)

subsection \<open>The setup hook (C8)\<close>

text \<open>
  C8. When the compile flag is set and the stage is \<open>"fit"\<close>, the \<open>setup\<close> hook replaces
  the network by its compiled version and changes nothing else; in every other case the
  module is left as it is.
\<close>

theorem setup_hook_compiles_on_fit:
  "(hp_compile (hparams s) \<and> stage = ''fit'' \<longrightarrow>
      setup_hook torch_compile s stage = s\<lparr> net := torch_compile (net s) \<rparr>) \<and>
   (\<not> (hp_compile (hparams s) \<and> stage = ''fit'') \<longrightarrow> setup_hook torch_compile s stage = s)"
  by (simp add: setup_hook_def)

text \<open>
  With a compiler that sets the number of classes of the network to 99: the network is
  replaced on \<open>"fit"\<close> with the flag set, and the module is unchanged on \<open>"validate"\<close>,
  \<open>"test"\<close> and \<open>"predict"\<close>, and on \<open>"fit"\<close> with the flag off.
\<close>

theorem setup_hook_compiles_on_fit_witness:
  "hp_compile (hparams (example_module [] None True)) \<and>
   setup_hook (\<lambda>n. n\<lparr> net_num_classes := 99 \<rparr>) (example_module [] None True) ''fit'' =
     (example_module [] None True)\<lparr> net := example_net\<lparr> net_num_classes := 99 \<rparr> \<rparr> \<and>
   setup_hook (\<lambda>n. n\<lparr> net_num_classes := 99 \<rparr>) (example_module [] None True) ''validate'' =
     example_module [] None True \<and>
   setup_hook (\<lambda>n. n\<lparr> net_num_classes := 99 \<rparr>) (example_module [] None True) ''test'' =
     example_module [] None True \<and>
   setup_hook (\<lambda>n. n\<lparr> net_num_classes := 99 \<rparr>) (example_module [] None True) ''predict'' =
     example_module [] None True \<and>
   \<not> hp_compile (hparams (example_module [] None False)) \<and>
   setup_hook (\<lambda>n. n\<lparr> net_num_classes := 99 \<rparr>) (example_module [] None False) ''fit'' =
     example_module [] None False"
proof -
  let ?tc = "\<lambda>n :: nat network. n\<lparr> net_num_classes := 99 \<rparr>"
  let ?m1 = "example_module [] None True"
  let ?m0 = "example_module [] None False"
  have h1: "hp_compile (hparams ?m1)" and h0: "\<not> hp_compile (hparams ?m0)"
    by (simp_all add: example_module_def init_def)
  have n1: "net ?m1 = example_net"
    by (simp add: example_module_def init_def)
  have fit: "setup_hook ?tc ?m1 ''fit'' = ?m1\<lparr> net := ?tc (net ?m1) \<rparr>"
    using setup_hook_compiles_on_fit [of ?m1 "''fit''" ?tc, THEN conjunct1] h1 by simp
  have validate: "setup_hook ?tc ?m1 ''validate'' = ?m1"
    using setup_hook_compiles_on_fit [of ?m1 "''validate''" ?tc, THEN conjunct2] by simp
  have test: "setup_hook ?tc ?m1 ''test'' = ?m1"
    using setup_hook_compiles_on_fit [of ?m1 "''test''" ?tc, THEN conjunct2] by simp
  have predict: "setup_hook ?tc ?m1 ''predict'' = ?m1"
    using setup_hook_compiles_on_fit [of ?m1 "''predict''" ?tc, THEN conjunct2] by simp
  have off: "setup_hook ?tc ?m0 ''fit'' = ?m0"
    using setup_hook_compiles_on_fit [of ?m0 "''fit''" ?tc, THEN conjunct2] h0 by simp
  from h1 fit [unfolded n1] validate test predict h0 off show ?thesis by blast
qed

subsection \<open>Logging in the step handlers (C5, C6)\<close>

text \<open>The training and the validation step return on every batch.\<close>

lemma training_step_returns:
  "\<exists>losses. model_step s (images, labels) = Inr (losses, forward s images, images, labels) \<and>
     training_step s (images, labels) idx =
       Inr (dict_get losses ''total_loss'',
            s\<lparr> train_loss := train_loss s @ [dict_get losses ''total_loss''],
               trace := trace s @
                 map (\<lambda>(n, v). Log (''train/'' @ n) v (Some False) (Some True) True) losses \<rparr>)"
proof -
  from model_step_returns [of s images labels] obtain losses where
    ms: "model_step s (images, labels) = Inr (losses, forward s images, images, labels)"
    by blast
  from ms training_step_eq [OF ms, of idx] show ?thesis by blast
qed

lemma validation_step_returns:
  "\<exists>losses. model_step s (images, labels) = Inr (losses, forward s images, images, labels) \<and>
     validation_step vp s (images, labels) idx =
       Inr (s\<lparr> val_loss := val_loss s @ [dict_get losses ''total_loss''],
               trace := trace s @
                 map (\<lambda>(n, v). Log (''val/'' @ n) v (Some False) (Some True) True) losses @
                 (if idx mod 100 = 0
                  then [VisualizePrediction images labels,
                        AddFigure ''Predicted_Images'' (fst (vp (net s) (device s) images labels)) (global_step s),
                        AddScalar ''Accuracy'' (snd (vp (net s) (device s) images labels)) (global_step s),
                        Log ''val/Accuracy'' (snd (vp (net s) (device s) images labels))
                          (Some False) (Some True) True]
                  else []) \<rparr>)"
proof -
  from model_step_returns [of s images labels] obtain losses where
    ms: "model_step s (images, labels) = Inr (losses, forward s images, images, labels)"
    by blast
  from ms validation_step_eq [OF ms, of vp idx] show ?thesis by blast
qed

text \<open>The keys of the loss mapping: \<open>"total_loss"\<close> and the tags of the loss functions.\<close>

lemma model_step_keys:
  "model_step s (images, labels) = Inr (losses, p, i, l) \<Longrightarrow>
     fst ` set losses = insert ''total_loss'' (tag ` set (loss_fns s))"
proof -
  assume "model_step s (images, labels) = Inr (losses, p, i, l)"
  from model_step_shape [OF this]
  have "loss_loop (loss_fns s) (forward s images) images labels [(''total_loss'', 0)] = Inr losses"
    by blast
  from loss_loop_keys [OF this] show ?thesis by simp
qed

text \<open>
  A loss log of the validation step has the name \<open>"val/Accuracy"\<close> only for a loss function
  tagged \<open>"Accuracy"\<close>.
\<close>

lemma val_logs_no_accuracy:
  assumes "''Accuracy'' \<notin> fst ` set losses"
  shows "Log ''val/Accuracy'' v a b c \<notin>
    set (map (\<lambda>(n, v). Log (''val/'' @ n) v (Some False) (Some True) True) losses)"
  using assms by (induction losses) auto

text \<open>
  C5, as amended. \<open>validation_step\<close> returns on every batch. When \<open>batch_idx % 100 == 0\<close>
  the calls it makes are the loss logs followed by the call of the visualizer,
  \<open>add_figure\<close>, \<open>add_scalar\<close> and the log of \<open>"val/Accuracy"\<close>, with the figure and the
  accuracy the visualizer returned; on every other batch index the calls are the loss logs
  alone. So a call of the visualizer, of \<open>add_figure\<close> or of \<open>add_scalar\<close> is among the calls
  of a step exactly when the batch index is a multiple of 100; and when no loss function is
  tagged \<open>"Accuracy"\<close>, so is a log under the name \<open>"val/Accuracy"\<close>.
\<close>

theorem validation_step_visualizes_every_100th:
  "\<exists>losses s'.
     model_step s (images, labels) = Inr (losses, forward s images, images, labels) \<and>
     validation_step vp s (images, labels) idx = Inr s' \<and>
     (idx mod 100 = 0 \<longrightarrow>
        trace s' = trace s @
          map (\<lambda>(n, v). Log (''val/'' @ n) v (Some False) (Some True) True) losses @
          [VisualizePrediction images labels,
           AddFigure ''Predicted_Images'' (fst (vp (net s) (device s) images labels)) (global_step s),
           AddScalar ''Accuracy'' (snd (vp (net s) (device s) images labels)) (global_step s),
           Log ''val/Accuracy'' (snd (vp (net s) (device s) images labels)) (Some False) (Some True) True]) \<and>
     (idx mod 100 \<noteq> 0 \<longrightarrow>
        trace s' = trace s @
          map (\<lambda>(n, v). Log (''val/'' @ n) v (Some False) (Some True) True) losses) \<and>
     ((\<exists>x y. VisualizePrediction x y \<in> set (drop (length (trace s)) (trace s'))) = (idx mod 100 = 0)) \<and>
     ((\<exists>x y z. AddFigure x y z \<in> set (drop (length (trace s)) (trace s'))) = (idx mod 100 = 0)) \<and>
     ((\<exists>x y z. AddScalar x y z \<in> set (drop (length (trace s)) (trace s'))) = (idx mod 100 = 0)) \<and>
     (''Accuracy'' \<notin> tag ` set (loss_fns s) \<longrightarrow>
        (\<exists>v a b c. Log ''val/Accuracy'' v a b c \<in> set (drop (length (trace s)) (trace s')))
          = (idx mod 100 = 0))"
proof -
  let ?logs = "\<lambda>losses. map (\<lambda>(n, v). Log (''val/'' @ n) v (Some False) (Some True) True) losses
      :: ('a, 'f) event list"
  have nv: "\<And>x y. VisualizePrediction x y \<notin> set (?logs losses)"
    and nf: "\<And>x y z. AddFigure x y z \<notin> set (?logs losses)"
    and ns: "\<And>x y z. AddScalar x y z \<notin> set (?logs losses)" for losses
    by auto
  from validation_step_returns [of s images labels vp idx] obtain losses s' where
    ms: "model_step s (images, labels) = Inr (losses, forward s images, images, labels)" and
    vs: "validation_step vp s (images, labels) idx = Inr s'" and
    tr: "trace s' = trace s @ ?logs losses @
          (if idx mod 100 = 0
           then [VisualizePrediction images labels,
                 AddFigure ''Predicted_Images'' (fst (vp (net s) (device s) images labels)) (global_step s),
                 AddScalar ''Accuracy'' (snd (vp (net s) (device s) images labels)) (global_step s),
                 Log ''val/Accuracy'' (snd (vp (net s) (device s) images labels))
                   (Some False) (Some True) True]
           else [])"
    by auto
  have keys: "fst ` set losses = insert ''total_loss'' (tag ` set (loss_fns s))"
    by (rule model_step_keys [OF ms])
  have na: "\<And>v a b c. Log ''val/Accuracy'' v a b c \<notin> set (?logs losses)"
    if "''Accuracy'' \<notin> tag ` set (loss_fns s)"
  proof -
    from that keys have "''Accuracy'' \<notin> fst ` set losses" by simp
    then show "\<And>v a b c. Log ''val/Accuracy'' v a b c \<notin> set (?logs losses)"
      by (rule val_logs_no_accuracy)
  qed
  show ?thesis
  proof (cases "idx mod 100 = 0")
    case True
    with tr have new: "drop (length (trace s)) (trace s') = ?logs losses @
          [VisualizePrediction images labels,
           AddFigure ''Predicted_Images'' (fst (vp (net s) (device s) images labels)) (global_step s),
           AddScalar ''Accuracy'' (snd (vp (net s) (device s) images labels)) (global_step s),
           Log ''val/Accuracy'' (snd (vp (net s) (device s) images labels)) (Some False) (Some True) True]"
      by simp
    have "\<exists>x y. VisualizePrediction x y \<in> set (drop (length (trace s)) (trace s'))"
      and "\<exists>x y z. AddFigure x y z \<in> set (drop (length (trace s)) (trace s'))"
      and "\<exists>x y z. AddScalar x y z \<in> set (drop (length (trace s)) (trace s'))"
      and "\<exists>v a b c. Log ''val/Accuracy'' v a b c \<in> set (drop (length (trace s)) (trace s'))"
      unfolding new by auto
    with True ms vs tr show ?thesis by auto
  next
    case False
    with tr have new: "drop (length (trace s)) (trace s') = ?logs losses"
      by simp
    have "\<not> (\<exists>x y. VisualizePrediction x y \<in> set (drop (length (trace s)) (trace s')))"
      and "\<not> (\<exists>x y z. AddFigure x y z \<in> set (drop (length (trace s)) (trace s')))"
      and "\<not> (\<exists>x y z. AddScalar x y z \<in> set (drop (length (trace s)) (trace s')))"
      unfolding new using nv nf ns by blast+
    moreover have "\<not> (\<exists>v a b c. Log ''val/Accuracy'' v a b c \<in> set (drop (length (trace s)) (trace s')))"
      if "''Accuracy'' \<notin> tag ` set (loss_fns s)"
      unfolding new using na [OF that] by blast
    ultimately show ?thesis using False ms vs tr by auto
  qed
qed

text \<open>
  One loss function \<open>"ce"\<close> of weight 1 and value 2, a visualizer that returns the figure
  \<open>images + labels\<close> and the accuracy 0.5, at the batch indices 200 and 3: the log under
  \<open>"val/Accuracy"\<close> is among the calls at 200 and not at 3.
\<close>

theorem validation_step_visualizes_every_100th_witness:
  "(200::int) mod 100 = 0 \<and>
   ''Accuracy'' \<notin> tag ` set (loss_fns
      (example_module [\<lparr> tag = ''ce'', weight = 1, loss_call = (\<lambda>p i l. 2) \<rparr>] None False)) \<and>
   (\<exists>s'. validation_step (\<lambda>n d i l. (i + l, 1/2))
            (example_module [\<lparr> tag = ''ce'', weight = 1, loss_call = (\<lambda>p i l. 2) \<rparr>] None False)
            (1, 2) 200 = Inr s' \<and>
      trace s' =
        [Log ''val/total_loss'' 2 (Some False) (Some True) True,
         Log ''val/ce'' 2 (Some False) (Some True) True,
         VisualizePrediction 1 2,
         AddFigure ''Predicted_Images'' 3 7,
         AddScalar ''Accuracy'' (1/2) 7,
         Log ''val/Accuracy'' (1/2) (Some False) (Some True) True]) \<and>
   (3::int) mod 100 \<noteq> 0 \<and>
   (\<exists>s'. validation_step (\<lambda>n d i l. (i + l, 1/2))
            (example_module [\<lparr> tag = ''ce'', weight = 1, loss_call = (\<lambda>p i l. 2) \<rparr>] None False)
            (1, 2) 3 = Inr s' \<and>
      trace s' =
        [Log ''val/total_loss'' 2 (Some False) (Some True) True,
         Log ''val/ce'' 2 (Some False) (Some True) True] \<and>
      \<not> (\<exists>v a b c. Log ''val/Accuracy'' v a b c \<in> set (trace s')))"
proof -
  let ?m = "example_module [\<lparr> tag = ''ce'', weight = 1, loss_call = (\<lambda>p i l. 2) \<rparr>] None False"
  let ?vp = "\<lambda>(n :: nat network) (d :: nat) (i :: nat) (l :: nat). (i + l, 1/2 :: real)"
  have ev: "model_step ?m (1, 2) = Inr ([(''total_loss'', 2), (''ce'', 2)], 1, 1, 2)"
    by (simp add: model_step_def forward_def example_module_def example_net_def init_def
        dict_setitem_def dict_getitem_def)
  have fields: "trace ?m = []" "global_step ?m = 7" "net ?m = example_net" "device ?m = 0"
    by (simp_all add: example_module_def init_def)
  have a: "(200::int) mod 100 = 0" and b: "(3::int) mod 100 \<noteq> 0" by simp_all
  have h: "''Accuracy'' \<notin> tag ` set (loss_fns ?m)"
    by (simp add: example_module_def init_def)
  from validation_step_visualizes_every_100th [of ?m 1 2 ?vp 200] obtain losses s' where
    ms: "model_step ?m (1, 2) = Inr (losses, forward ?m 1, 1, 2)" and
    vs: "validation_step ?vp ?m (1, 2) 200 = Inr s'" and
    tr: "(200::int) mod 100 = 0 \<longrightarrow> trace s' = trace ?m @
          map (\<lambda>(n, v). Log (''val/'' @ n) v (Some False) (Some True) True) losses @
          [VisualizePrediction 1 2,
           AddFigure ''Predicted_Images'' (fst (?vp (net ?m) (device ?m) 1 2)) (global_step ?m),
           AddScalar ''Accuracy'' (snd (?vp (net ?m) (device ?m) 1 2)) (global_step ?m),
           Log ''val/Accuracy'' (snd (?vp (net ?m) (device ?m) 1 2)) (Some False) (Some True) True]"
    by (elim exE conjE)
  from ms ev have l: "losses = [(''total_loss'', 2), (''ce'', 2)]" by simp
  from tr a have "trace s' =
        [Log ''val/total_loss'' 2 (Some False) (Some True) True,
         Log ''val/ce'' 2 (Some False) (Some True) True,
         VisualizePrediction 1 2,
         AddFigure ''Predicted_Images'' 3 7,
         AddScalar ''Accuracy'' (1/2) 7,
         Log ''val/Accuracy'' (1/2) (Some False) (Some True) True]"
    unfolding l fields by simp
  with vs have one: "\<exists>s'. validation_step ?vp ?m (1, 2) 200 = Inr s' \<and>
      trace s' =
        [Log ''val/total_loss'' 2 (Some False) (Some True) True,
         Log ''val/ce'' 2 (Some False) (Some True) True,
         VisualizePrediction 1 2,
         AddFigure ''Predicted_Images'' 3 7,
         AddScalar ''Accuracy'' (1/2) 7,
         Log ''val/Accuracy'' (1/2) (Some False) (Some True) True]"
    by blast
  from validation_step_visualizes_every_100th [of ?m 1 2 ?vp 3] obtain losses3 s3 where
    ms3: "model_step ?m (1, 2) = Inr (losses3, forward ?m 1, 1, 2)" and
    vs3: "validation_step ?vp ?m (1, 2) 3 = Inr s3" and
    tr3: "(3::int) mod 100 \<noteq> 0 \<longrightarrow> trace s3 = trace ?m @
          map (\<lambda>(n, v). Log (''val/'' @ n) v (Some False) (Some True) True) losses3" and
    acc: "''Accuracy'' \<notin> tag ` set (loss_fns ?m) \<longrightarrow>
        (\<exists>v a b c. Log ''val/Accuracy'' v a b c \<in> set (drop (length (trace ?m)) (trace s3)))
          = ((3::int) mod 100 = 0)"
    by (elim exE conjE)
  from ms3 ev have l3: "losses3 = [(''total_loss'', 2), (''ce'', 2)]" by simp
  from tr3 b have t3: "trace s3 =
        [Log ''val/total_loss'' 2 (Some False) (Some True) True,
         Log ''val/ce'' 2 (Some False) (Some True) True]"
    unfolding l3 fields by simp
  from acc h have "(\<exists>v a b c. Log ''val/Accuracy'' v a b c \<in> set (drop (length (trace ?m)) (trace s3)))
          = ((3::int) mod 100 = 0)"
    by (rule mp)
  then have n3: "\<not> (\<exists>v a b c. Log ''val/Accuracy'' v a b c \<in> set (trace s3))"
    unfolding fields using b by simp
  from vs3 t3 n3 have two: "\<exists>s'. validation_step ?vp ?m (1, 2) 3 = Inr s' \<and>
      trace s' =
        [Log ''val/total_loss'' 2 (Some False) (Some True) True,
         Log ''val/ce'' 2 (Some False) (Some True) True] \<and>
      \<not> (\<exists>v a b c. Log ''val/Accuracy'' v a b c \<in> set (trace s'))"
    by blast
  from a h one b two show ?thesis by blast
qed

text \<open>
  C5 as stated, with no log of \<open>"val/Accuracy"\<close> off the multiples of 100: it fails when a
  loss function is tagged \<open>"Accuracy"\<close>. The loop over the loss mapping logs this loss under
  \<open>"val/" + "Accuracy"\<close> on every batch; here at the batch index 3, with weight 1 and value
  2.
\<close>

theorem validation_step_logs_loss_named_accuracy:
  "(3::int) mod 100 \<noteq> 0 \<and>
   validation_step (\<lambda>n d i l. (i + l, 1/2))
      (example_module [\<lparr> tag = ''Accuracy'', weight = 1, loss_call = (\<lambda>p i l. 2) \<rparr>] None False)
      (1, 2) 3 =
     Inr ((example_module [\<lparr> tag = ''Accuracy'', weight = 1, loss_call = (\<lambda>p i l. 2) \<rparr>] None False)
            \<lparr> val_loss := [Some 2],
              trace := [Log ''val/total_loss'' 2 (Some False) (Some True) True,
                        Log ''val/Accuracy'' 2 (Some False) (Some True) True] \<rparr>) \<and>
   Log ''val/Accuracy'' 2 (Some False) (Some True) True \<in>
     set [Log ''val/total_loss'' 2 (Some False) (Some True) True,
          Log ''val/Accuracy'' 2 (Some False) (Some True) True :: (nat, nat) event]"
  by (simp add: validation_step_def model_step_def forward_def example_module_def example_net_def
      init_def dict_setitem_def dict_getitem_def dict_get_def metric_call_def log_call_def)

text \<open>
  C6. On every batch each of the three step handlers returns, and for every entry of the
  loss mapping, in the order of the mapping, it calls \<open>self.log\<close> with the entry's name
  behind the stage prefix (\<open>"train/"\<close>, \<open>"val/"\<close>, \<open>"test/"\<close>), the entry's value,
  \<open>on_step=False\<close>, \<open>on_epoch=True\<close> and \<open>prog_bar=True\<close>. The keys of the mapping are
  \<open>"total_loss"\<close> and the tags of the loss functions. The training step makes no other call,
  the test step calls the visualizer before, and the validation step may make calls after.
\<close>

theorem step_handlers_log_every_loss:
  "\<exists>losses.
     model_step s (images, labels) = Inr (losses, forward s images, images, labels) \<and>
     fst ` set losses = insert ''total_loss'' (tag ` set (loss_fns s)) \<and>
     (\<exists>r s'. training_step s (images, labels) idx = Inr (r, s') \<and>
        trace s' = trace s @
          map (\<lambda>(n, v). Log (''train/'' @ n) v (Some False) (Some True) True) losses) \<and>
     (\<exists>s' rest. validation_step vp s (images, labels) idx = Inr s' \<and>
        trace s' = trace s @
          map (\<lambda>(n, v). Log (''val/'' @ n) v (Some False) (Some True) True) losses @ rest) \<and>
     (\<exists>s'. test_step ga s (images, labels) idx = Inr s' \<and>
        trace s' = trace s @ GetAccuracy images labels #
          map (\<lambda>(n, v). Log (''test/'' @ n) v (Some False) (Some True) True) losses)"
proof -
  from model_step_returns [of s images labels] obtain losses where
    ms: "model_step s (images, labels) = Inr (losses, forward s images, images, labels)"
    by blast
  have keys: "fst ` set losses = insert ''total_loss'' (tag ` set (loss_fns s))"
    by (rule model_step_keys [OF ms])
  have tr: "\<exists>r s'. training_step s (images, labels) idx = Inr (r, s') \<and>
        trace s' = trace s @
          map (\<lambda>(n, v). Log (''train/'' @ n) v (Some False) (Some True) True) losses"
    by (simp add: training_step_eq [OF ms])
  have va: "\<exists>s' rest. validation_step vp s (images, labels) idx = Inr s' \<and>
        trace s' = trace s @
          map (\<lambda>(n, v). Log (''val/'' @ n) v (Some False) (Some True) True) losses @ rest"
    by (simp add: validation_step_eq [OF ms])
  have te: "\<exists>s'. test_step ga s (images, labels) idx = Inr s' \<and>
        trace s' = trace s @ GetAccuracy images labels #
          map (\<lambda>(n, v). Log (''test/'' @ n) v (Some False) (Some True) True) losses"
    by (simp add: test_step_eq [OF ms])
  from ms keys tr va te show ?thesis by blast
qed

text \<open>
  Two loss functions \<open>"a"\<close> and \<open>"b"\<close> with weights 0.5 and 2 and values 1 and 3: the calls of
  a training step and of a test step.
\<close>

theorem step_handlers_log_every_loss_witness:
  "(\<exists>r s'. training_step
        (example_module [\<lparr> tag = ''a'', weight = 1/2, loss_call = (\<lambda>p i l. 1) \<rparr>,
                         \<lparr> tag = ''b'', weight = 2, loss_call = (\<lambda>p i l. 3) \<rparr>] None False)
        (1, 2) 0 = Inr (r, s') \<and>
      trace s' =
        [Log ''train/total_loss'' (13/2) (Some False) (Some True) True,
         Log ''train/a'' 1 (Some False) (Some True) True,
         Log ''train/b'' 3 (Some False) (Some True) True]) \<and>
   (\<exists>s'. test_step (\<lambda>n d i l. (4, 5))
        (example_module [\<lparr> tag = ''a'', weight = 1/2, loss_call = (\<lambda>p i l. 1) \<rparr>,
                         \<lparr> tag = ''b'', weight = 2, loss_call = (\<lambda>p i l. 3) \<rparr>] None False)
        (1, 2) 0 = Inr s' \<and>
      trace s' =
        [GetAccuracy 1 2,
         Log ''test/total_loss'' (13/2) (Some False) (Some True) True,
         Log ''test/a'' 1 (Some False) (Some True) True,
         Log ''test/b'' 3 (Some False) (Some True) True])"
proof -
  let ?m = "example_module [\<lparr> tag = ''a'', weight = 1/2, loss_call = (\<lambda>p i l. 1) \<rparr>,
                            \<lparr> tag = ''b'', weight = 2, loss_call = (\<lambda>p i l. 3) \<rparr>] None False"
  let ?ga = "\<lambda>(n :: nat network) (d :: nat) (i :: nat) (l :: nat). (4 :: int, 5 :: int)"
  let ?vp = "\<lambda>(n :: nat network) (d :: nat) (i :: nat) (l :: nat). (0 :: nat, 0 :: real)"
  have ev: "model_step ?m (1, 2) = Inr ([(''total_loss'', 13/2), (''a'', 1), (''b'', 3)], 1, 1, 2)"
    by (simp add: model_step_def forward_def example_module_def example_net_def init_def
        dict_setitem_def dict_getitem_def)
  have t0: "trace ?m = []"
    by (simp add: example_module_def init_def)
  from step_handlers_log_every_loss [of ?m 1 2 0 ?vp ?ga] ev show ?thesis
    unfolding t0 by auto
qed

subsection \<open>The division at the end of the test epoch (C9)\<close>

lemma on_test_epoch_end_raises: "(on_test_epoch_end s = Inl ZeroDivisionError) = (total_count s = 0)"
  by (simp add: on_test_epoch_end_def int_truediv_def Let_def)

lemma on_test_epoch_end_returns: "(\<exists>s'. on_test_epoch_end s = Inr s') = (total_count s \<noteq> 0)"
  by (simp add: on_test_epoch_end_def int_truediv_def Let_def)

lemma on_test_epoch_end_counters:
  "on_test_epoch_end s = Inr s' \<Longrightarrow> correct_count s' = correct_count s \<and> total_count s' = total_count s"
  by (auto simp: on_test_epoch_end_def int_truediv_def log_call_def Let_def split: if_splits)

text \<open>
  C9. \<open>on_test_epoch_end\<close> raises \<open>ZeroDivisionError\<close> exactly when the stored \<open>total_count\<close>
  is zero, and returns exactly when it is not. Both counters are zero in a module fresh from
  \<open>__init__\<close>, so the hook raises there. A test step sets \<open>total_count\<close> to the total the
  visualizer returns, so the hook raises after a batch whose total is zero. No other
  callback changes the counters: not the training step, the validation step, the hook
  itself, \<open>on_train_start\<close>, \<open>setup\<close>, nor the two empty epoch-end hooks.
\<close>

theorem on_test_epoch_end_zero_division:
  "(on_test_epoch_end s = Inl ZeroDivisionError) = (total_count s = 0) \<and>
   (\<exists>s'. on_test_epoch_end s = Inr s') = (total_count s \<noteq> 0) \<and>
   correct_count (init net0 optimizer0 fns scheduler0 flag dev step
      :: ('a, 'b, 'c, 'd, 'e, 'f) captcha_module) = 0 \<and>
   total_count (init net0 optimizer0 fns scheduler0 flag dev step
      :: ('a, 'b, 'c, 'd, 'e, 'f) captcha_module) = 0 \<and>
   on_test_epoch_end (init net0 optimizer0 fns scheduler0 flag dev step
      :: ('a, 'b, 'c, 'd, 'e, 'f) captcha_module) = Inl ZeroDivisionError \<and>
   (\<exists>s'. test_step ga s (images, labels) idx = Inr s' \<and>
      total_count s' = snd (ga (net s) (device s) images labels) \<and>
      (snd (ga (net s) (device s) images labels) = 0 \<longrightarrow>
         on_test_epoch_end s' = Inl ZeroDivisionError)) \<and>
   (\<exists>r s'. training_step s (images, labels) idx = Inr (r, s') \<and>
      correct_count s' = correct_count s \<and> total_count s' = total_count s) \<and>
   (\<exists>s'. validation_step vp s (images, labels) idx = Inr s' \<and>
      correct_count s' = correct_count s \<and> total_count s' = total_count s) \<and>
   (\<forall>s'. on_test_epoch_end s = Inr s' \<longrightarrow>
      correct_count s' = correct_count s \<and> total_count s' = total_count s) \<and>
   correct_count (on_train_start s) = correct_count s \<and>
   total_count (on_train_start s) = total_count s \<and>
   correct_count (setup_hook torch_compile s stage) = correct_count s \<and>
   total_count (setup_hook torch_compile s stage) = total_count s \<and>
   correct_count (on_train_epoch_end s) = correct_count s \<and>
   total_count (on_train_epoch_end s) = total_count s \<and>
   correct_count (on_validation_epoch_end s) = correct_count s \<and>
   total_count (on_validation_epoch_end s) = total_count s"
proof -
  have i1: "correct_count (init net0 optimizer0 fns scheduler0 flag dev step
      :: ('a, 'b, 'c, 'd, 'e, 'f) captcha_module) = 0"
    and i2: "total_count (init net0 optimizer0 fns scheduler0 flag dev step
      :: ('a, 'b, 'c, 'd, 'e, 'f) captcha_module) = 0"
    by (simp_all add: init_def)
  have i3: "on_test_epoch_end (init net0 optimizer0 fns scheduler0 flag dev step
      :: ('a, 'b, 'c, 'd, 'e, 'f) captcha_module) = Inl ZeroDivisionError"
    using i2 by (simp only: on_test_epoch_end_raises)
  from test_step_returns [of s images labels ga idx] obtain s1 where
    t1: "test_step ga s (images, labels) idx = Inr s1" and
    t2: "total_count s1 = snd (ga (net s) (device s) images labels)"
    by auto
  have te: "\<exists>s'. test_step ga s (images, labels) idx = Inr s' \<and>
      total_count s' = snd (ga (net s) (device s) images labels) \<and>
      (snd (ga (net s) (device s) images labels) = 0 \<longrightarrow>
         on_test_epoch_end s' = Inl ZeroDivisionError)"
    using t1 t2 on_test_epoch_end_raises [of s1] by auto
  have tr: "\<exists>r s'. training_step s (images, labels) idx = Inr (r, s') \<and>
      correct_count s' = correct_count s \<and> total_count s' = total_count s"
    using training_step_returns [of s images labels idx] by auto
  have va: "\<exists>s'. validation_step vp s (images, labels) idx = Inr s' \<and>
      correct_count s' = correct_count s \<and> total_count s' = total_count s"
    using validation_step_returns [of s images labels vp idx] by auto
  have ee: "\<forall>s'. on_test_epoch_end s = Inr s' \<longrightarrow>
      correct_count s' = correct_count s \<and> total_count s' = total_count s"
    using on_test_epoch_end_counters by blast
  have hooks: "correct_count (on_train_start s) = correct_count s"
    "total_count (on_train_start s) = total_count s"
    "correct_count (setup_hook torch_compile s stage) = correct_count s"
    "total_count (setup_hook torch_compile s stage) = total_count s"
    "correct_count (on_train_epoch_end s) = correct_count s"
    "total_count (on_train_epoch_end s) = total_count s"
    "correct_count (on_validation_epoch_end s) = correct_count s"
    "total_count (on_validation_epoch_end s) = total_count s"
    by (simp_all add: on_train_start_def setup_hook_def on_train_epoch_end_def
        on_validation_epoch_end_def)
  show ?thesis
    by (intro conjI on_test_epoch_end_raises on_test_epoch_end_returns i1 i2 i3 te tr va ee hooks)
qed

text \<open>
  A fresh module, and the same module after a test step on which the visualizer returns
  \<open>(0, 0)\<close>.
\<close>

theorem on_test_epoch_end_zero_division_witness:
  "total_count (example_module [] None False) = 0 \<and>
   on_test_epoch_end (example_module [] None False) = Inl ZeroDivisionError \<and>
   (\<exists>s'. test_step (\<lambda>n d i l. (0, 0)) (example_module [] None False) (1, 2) 0 = Inr s' \<and>
      total_count s' = 0 \<and>
      on_test_epoch_end s' = Inl ZeroDivisionError)"
proof -
  let ?m = "example_module [] None False"
  let ?ga = "\<lambda>(n :: nat network) (d :: nat) (i :: nat) (l :: nat). (0 :: int, 0 :: int)"
  let ?vp = "\<lambda>(n :: nat network) (d :: nat) (i :: nat) (l :: nat). (0 :: nat, 0 :: real)"
  note inst = on_test_epoch_end_zero_division
    [of ?m example_net "\<lambda>w. w" "[]" None False 0 7 ?ga 1 2 0 ?vp "\<lambda>n. n" "''fit''"]
  have z: "total_count ?m = 0"
    by (simp add: example_module_def init_def)
  have g: "snd (?ga (net ?m) (device ?m) 1 2) = 0" by simp
  from inst z have r: "on_test_epoch_end ?m = Inl ZeroDivisionError" by blast
  from inst g have t: "\<exists>s'. test_step ?ga ?m (1, 2) 0 = Inr s' \<and> total_count s' = 0 \<and>
      on_test_epoch_end s' = Inl ZeroDivisionError"
    by auto
  from z r t show ?thesis by blast
qed

end
